theory Spec2Isabelle
  imports
    Main
    "HOL-Library.AList"
    "HOL-Library.Char_ord"
    "HOL-Library.List_Lexorder"
    "HOL-Library.Multiset"
    "HOL-Library.Word"
begin

section \<open>JavaScript containers\<close>

text \<open>
  A JavaScript \<^verbatim>\<open>Map\<close> iterates in insertion order, so it is an association list with
  distinct keys. \<^verbatim>\<open>set\<close> on a key already present replaces the value where it stands,
  on a new key it appends; \<^verbatim>\<open>delete\<close> drops the pair.
\<close>

type_synonym ('k, 'v) JsMap = "('k \<times> 'v) list"

definition Map_get :: "('k, 'v) JsMap \<Rightarrow> 'k \<Rightarrow> 'v option" where
  "Map_get m k = map_of m k"

definition Map_has :: "('k, 'v) JsMap \<Rightarrow> 'k \<Rightarrow> bool" where
  "Map_has m k = (map_of m k \<noteq> None)"

definition Map_set :: "('k, 'v) JsMap \<Rightarrow> 'k \<Rightarrow> 'v \<Rightarrow> ('k, 'v) JsMap" where
  "Map_set m k v = AList.update k v m"

definition Map_delete :: "('k, 'v) JsMap \<Rightarrow> 'k \<Rightarrow> ('k, 'v) JsMap" where
  "Map_delete m k = AList.delete k m"

definition Map_size :: "('k, 'v) JsMap \<Rightarrow> nat" where
  "Map_size m = length m"

text \<open>\<^verbatim>\<open>new Map(pairs)\<close>: the pairs are set one after the other.\<close>

definition new_Map :: "('k \<times> 'v) list \<Rightarrow> ('k, 'v) JsMap" where
  "new_Map ps = foldl (\<lambda>m (k, v). Map_set m k v) [] ps"

text \<open>
  What a JavaScript expression of the wantlist can evaluate to: \<^verbatim>\<open>undefined\<close>, a boolean,
  or a reference to an object.
\<close>

datatype 'a JsValue = JsUndefined | JsBoolean bool | JsObject 'a

section \<open>Wantlist entries (src/types/wantlist/entry.js)\<close>

datatype WantType = Block | Have

text \<open>
  \<^verbatim>\<open>_refCounter\<close> is a JavaScript number that only ever holds integers; \<^verbatim>\<open>priority\<close> is a
  non-negative integer; \<^verbatim>\<open>wantType\<close> is \<^verbatim>\<open>undefined\<close> when the constructor is called with
  two arguments, as the wantlist does.
\<close>

record 'cid WantListEntry =
  refCounter :: int
  cid :: 'cid
  priority :: nat
  wantType :: "WantType option"

text \<open>The constructor: one reference, and \<^verbatim>\<open>priority || 1\<close> (0 is falsy).\<close>

definition new_WantListEntry :: "'cid \<Rightarrow> nat \<Rightarrow> WantType option \<Rightarrow> 'cid WantListEntry" where
  "new_WantListEntry c p wt =
     \<lparr>refCounter = 1, cid = c, priority = (if p = 0 then 1 else p), wantType = wt\<rparr>"

definition WantListEntry_inc :: "'cid WantListEntry \<Rightarrow> 'cid WantListEntry" where
  "WantListEntry_inc e = e\<lparr>refCounter := refCounter e + 1\<rparr>"

definition WantListEntry_dec :: "'cid WantListEntry \<Rightarrow> 'cid WantListEntry" where
  "WantListEntry_dec e = e\<lparr>refCounter := max 0 (refCounter e - 1)\<rparr>"

definition WantListEntry_hasRefs :: "'cid WantListEntry \<Rightarrow> bool" where
  "WantListEntry_hasRefs e = (refCounter e > 0)"

text \<open>A sequence of \<^verbatim>\<open>inc\<close> and \<^verbatim>\<open>dec\<close> calls on one entry.\<close>

datatype EntryCall = Inc | Dec

fun call_entry :: "'cid WantListEntry \<Rightarrow> EntryCall \<Rightarrow> 'cid WantListEntry" where
  "call_entry e Inc = WantListEntry_inc e"
| "call_entry e Dec = WantListEntry_dec e"

definition call_entry_seq :: "'cid WantListEntry \<Rightarrow> EntryCall list \<Rightarrow> 'cid WantListEntry" where
  "call_entry_seq e cs = foldl call_entry e cs"

section \<open>The wantlist (src/wantlist/index.js)\<close>

text \<open>
  The class has one field, the Map \<^verbatim>\<open>set\<close> from the CID's string to its entry. The
  string is \<^verbatim>\<open>key.toString()\<close> in the earlier revision of the file and
  \<^verbatim>\<open>cid.toBaseEncodedString()\<close> in the later one; both are methods of a package outside the
  repository, so the conversion is the parameter \<open>toStr\<close>. The entry is mutated in place,
  which keeps its position in the Map.
\<close>

type_synonym 'cid Wantlist = "(string, 'cid WantListEntry) JsMap"

definition new_Wantlist :: "'cid Wantlist" where
  "new_Wantlist = []"

definition Wantlist_length :: "'cid Wantlist \<Rightarrow> nat" where
  "Wantlist_length wl = Map_size wl"

definition Wantlist_add :: "('cid \<Rightarrow> string) \<Rightarrow> 'cid Wantlist \<Rightarrow> 'cid \<Rightarrow> nat \<Rightarrow> 'cid Wantlist" where
  "Wantlist_add toStr wl c p =
     (let cidStr = toStr c in
      case Map_get wl cidStr of
        Some entry \<Rightarrow> Map_set wl cidStr ((WantListEntry_inc entry)\<lparr>priority := p\<rparr>)
      | None \<Rightarrow> Map_set wl cidStr (new_WantListEntry c p None))"

definition Wantlist_remove :: "('cid \<Rightarrow> string) \<Rightarrow> 'cid Wantlist \<Rightarrow> 'cid \<Rightarrow> 'cid Wantlist" where
  "Wantlist_remove toStr wl c =
     (let cidStr = toStr c in
      case Map_get wl cidStr of
        None \<Rightarrow> wl
      | Some entry \<Rightarrow>
          (let entry' = WantListEntry_dec entry in
           if WantListEntry_hasRefs entry' then Map_set wl cidStr entry'
           else Map_delete wl cidStr))"

definition Wantlist_removeForce :: "'cid Wantlist \<Rightarrow> string \<Rightarrow> 'cid Wantlist" where
  "Wantlist_removeForce wl cidStr = (if Map_has wl cidStr then Map_delete wl cidStr else wl)"

definition Wantlist_entries :: "'cid Wantlist \<Rightarrow> (string \<times> 'cid WantListEntry) list" where
  "Wantlist_entries wl = wl"

text \<open>
  \<^verbatim>\<open>contains\<close>, later revision (lines 116 to 119): \<^verbatim>\<open>!!this.set.get(cidStr)\<close>, a boolean.
\<close>

definition Wantlist_contains :: "('cid \<Rightarrow> string) \<Rightarrow> 'cid Wantlist \<Rightarrow> 'cid \<Rightarrow> bool" where
  "Wantlist_contains toStr wl c = (Map_get wl (toStr c) \<noteq> None)"

text \<open>
  \<^verbatim>\<open>contains\<close>, earlier revision (lines 52 to 54): \<^verbatim>\<open>return this.set.get(key.toString())\<close>,
  the entry itself or \<^verbatim>\<open>undefined\<close>.
\<close>

definition Wantlist_contains_rev1 ::
  "('cid \<Rightarrow> string) \<Rightarrow> 'cid Wantlist \<Rightarrow> 'cid \<Rightarrow> 'cid WantListEntry JsValue" where
  "Wantlist_contains_rev1 toStr wl c =
     (case Map_get wl (toStr c) of None \<Rightarrow> JsUndefined | Some entry \<Rightarrow> JsObject entry)"

section \<open>Sorted entries (src/wantlist/index.js, src/types/wantlist/entry.js)\<close>

text \<open>Decimal digits of a non-negative integer, as \<^verbatim>\<open>Number.prototype.toString\<close> prints them.\<close>

fun decimal :: "nat \<Rightarrow> string" where
  "decimal n =
     (if n < 10 then [char_of (48 + n)] else decimal (n div 10) @ [char_of (48 + n mod 10)])"

declare decimal.simps [simp del]

definition Number_toString :: "int \<Rightarrow> string" where
  "Number_toString i = (if i < 0 then ''-'' @ decimal (nat (- i)) else decimal (nat i))"

text \<open>
  The getter \<^verbatim>\<open>Symbol.toStringTag\<close> of the entry; \<open>b58\<close> stands for
  \<^verbatim>\<open>cid.toString('base58btc')\<close>, a method of the CID package.
\<close>

definition WantListEntry_toStringTag :: "('cid \<Rightarrow> string) \<Rightarrow> 'cid WantListEntry \<Rightarrow> string" where
  "WantListEntry_toStringTag b58 e =
     ''WantlistEntry <key: '' @ b58 (cid e) @ '', priority: '' @ decimal (priority e)
       @ '', refs: '' @ Number_toString (refCounter e) @ ''>''"

text \<open>\<^verbatim>\<open>Object.prototype.toString\<close> on an entry wraps the tag.\<close>

definition Object_toString :: "('cid \<Rightarrow> string) \<Rightarrow> 'cid WantListEntry \<Rightarrow> string" where
  "Object_toString b58 e = ''[object '' @ WantListEntry_toStringTag b58 e @ '']''"

text \<open>
  \<^verbatim>\<open>Array.from(this.set.entries())\<close> is an array of two-element arrays \<^verbatim>\<open>[key, entry]\<close>;
  the string of such an array joins the strings of its elements with a comma.
\<close>

definition Array_toString :: "('cid \<Rightarrow> string) \<Rightarrow> string \<times> 'cid WantListEntry \<Rightarrow> string" where
  "Array_toString b58 p = fst p @ '','' @ Object_toString b58 (snd p)"

text \<open>
  \<^verbatim>\<open>Array.prototype.sort()\<close> without a comparator: a stable sort that compares the strings
  of the elements code unit by code unit, a proper prefix before the longer string.
\<close>

definition Array_sort :: "('a \<Rightarrow> string) \<Rightarrow> 'a list \<Rightarrow> 'a list" where
  "Array_sort toString xs = sort_key toString xs"

definition Wantlist_sortedEntries ::
  "('cid \<Rightarrow> string) \<Rightarrow> 'cid Wantlist \<Rightarrow> (string, 'cid WantListEntry) JsMap" where
  "Wantlist_sortedEntries b58 wl = new_Map (Array_sort (Array_toString b58) (Wantlist_entries wl))"

section \<open>CIDs of version 0 and their strings\<close>

text \<open>
  A version 0 CID is its multihash: the canonical bytes are the multihash bytes, and both
  \<^verbatim>\<open>toBaseEncodedString()\<close> and \<^verbatim>\<open>toString('base58btc')\<close> give the base58btc encoding of
  those bytes, one \<^verbatim>\<open>1\<close> for each leading zero byte followed by the digits of the bytes read
  as a big-endian number. The encoding belongs to the CID package, not to this repository; it
  is written out here to have real CIDs to run the wantlist on.
\<close>

definition base58_alphabet :: string where
  "base58_alphabet = ''123456789ABCDEFGHJKLMNPQRSTUVWXYZabcdefghijkmnopqrstuvwxyz''"

fun base58_digits :: "nat \<Rightarrow> string" where
  "base58_digits n =
     (if n = 0 then [] else base58_digits (n div 58) @ [base58_alphabet ! (n mod 58)])"

declare base58_digits.simps [simp del]

definition bytes_to_nat :: "8 word list \<Rightarrow> nat" where
  "bytes_to_nat bs = foldl (\<lambda>n b. 256 * n + unat b) 0 bs"

definition base58btc :: "8 word list \<Rightarrow> string" where
  "base58btc bs =
     replicate (length (takeWhile (\<lambda>b. b = 0) bs)) (CHR ''1'') @ base58_digits (bytes_to_nat bs)"

text \<open>
  The CIDs that \<^verbatim>\<open>new CID(hash)\<close> of test/utils/make-block.js builds for the data
  \<^verbatim>\<open>hello\<close>: the sha2-256 multihash (code 0x12, length 0x20) and, with the hash function
  changed to sha2-512, the sha2-512 multihash (code 0x13, length 0x40).
\<close>

definition cid_hello_sha256 :: "8 word list" where
  "cid_hello_sha256 =
     [0x12, 0x20, 0x2c, 0xf2, 0x4d, 0xba, 0x5f, 0xb0, 0xa3, 0x0e, 0x26, 0xe8, 0x3b, 0x2a, 0xc5,
      0xb9, 0xe2, 0x9e, 0x1b, 0x16, 0x1e, 0x5c, 0x1f, 0xa7, 0x42, 0x5e, 0x73, 0x04, 0x33, 0x62,
      0x93, 0x8b, 0x98, 0x24]"

definition cid_hello_sha512 :: "8 word list" where
  "cid_hello_sha512 =
     [0x13, 0x40, 0x9b, 0x71, 0xd2, 0x24, 0xbd, 0x62, 0xf3, 0x78, 0x5d, 0x96, 0xd4, 0x6a, 0xd3,
      0xea, 0x3d, 0x73, 0x31, 0x9b, 0xfb, 0xc2, 0x89, 0x0c, 0xaa, 0xda, 0xe2, 0xdf, 0xf7, 0x25,
      0x19, 0x67, 0x3c, 0xa7, 0x23, 0x23, 0xc3, 0xd9, 0x9b, 0xa5, 0xc1, 0x1d, 0x7c, 0x7a, 0xcc,
      0x6e, 0x14, 0xb8, 0xc5, 0xda, 0x0c, 0x46, 0x63, 0x47, 0x5c, 0x2e, 0x5c, 0x3a, 0xde, 0xf4,
      0x6f, 0x73, 0xbc, 0xde, 0xc0, 0x43]"

text \<open>The same two wants, added in the two possible orders.\<close>

definition wantlist_256_512 :: "8 word list Wantlist" where
  "wantlist_256_512 =
     Wantlist_add base58btc (Wantlist_add base58btc new_Wantlist cid_hello_sha256 1)
       cid_hello_sha512 1"

definition wantlist_512_256 :: "8 word list Wantlist" where
  "wantlist_512_256 =
     Wantlist_add base58btc (Wantlist_add base58btc new_Wantlist cid_hello_sha512 1)
       cid_hello_sha256 1"

section \<open>The network adapter (the TypeScript source with class Network)\<close>

text \<open>A JavaScript \<^verbatim>\<open>Error\<close> with its message.\<close>

datatype Error = Error (message: string)

datatype 'peer Connection = Connection (remotePeer: 'peer)

text \<open>
  An async iterable, as \<^verbatim>\<open>for await\<close> consumes it: it ends, throws, or yields a value and
  goes on. It may go on for ever, so the type is coinductive.
\<close>

codatatype 'a AsyncIterable = Done | Throw Error | Yield 'a "'a AsyncIterable"

text \<open>
  libp2p is outside the repository. What its calls answer is given by a record of functions:
  any dial, stream negotiation, handler registration or provider lookup may fail.
\<close>

record ('peer, 'cid) Libp2p =
  dial :: "'peer \<Rightarrow> Error + 'peer Connection"
  newStream :: "'peer Connection \<Rightarrow> string list \<Rightarrow> Error + string"
  handle :: "string list \<Rightarrow> Error + unit"
  register :: "string \<Rightarrow> Error + string"
  getConnections :: "'peer Connection list"
  findProviders :: "'cid \<Rightarrow> 'peer AsyncIterable"

definition BITSWAP100 :: string where
  "BITSWAP100 = ''/ipfs/bitswap/1.0.0''"

definition BITSWAP110 :: string where
  "BITSWAP110 = ''/ipfs/bitswap/1.1.0''"

definition BITSWAP120 :: string where
  "BITSWAP120 = ''/ipfs/bitswap/1.2.0''"

definition DEFAULT_MAX_INBOUND_STREAMS :: nat where
  "DEFAULT_MAX_INBOUND_STREAMS = 32"

definition DEFAULT_MAX_OUTBOUND_STREAMS :: nat where
  "DEFAULT_MAX_OUTBOUND_STREAMS = 128"

definition DEFAULT_INCOMING_STREAM_TIMEOUT :: nat where
  "DEFAULT_INCOMING_STREAM_TIMEOUT = 30000"

text \<open>Every option may be left out; \<^verbatim>\<open>hashLoader\<close> plays no part in what follows.\<close>

record NetworkOptions =
  b100Only :: "bool option"
  maxInboundStreams :: "nat option"
  maxOutboundStreams :: "nat option"
  incomingStreamTimeout :: "nat option"

definition no_options :: NetworkOptions where
  "no_options = \<lparr>b100Only = None, maxInboundStreams = None, maxOutboundStreams = None,
     incomingStreamTimeout = None\<rparr>"

text \<open>The fields \<^verbatim>\<open>_protocols\<close>, \<^verbatim>\<open>_running\<close> and so on of the class.\<close>

record Network =
  net_protocols :: "string list"
  net_running :: bool
  net_maxInboundStreams :: nat
  net_maxOutboundStreams :: nat
  net_incomingStreamTimeout :: nat
  net_registrarIds :: "string list option"

definition Array_unshift :: "'a list \<Rightarrow> 'a \<Rightarrow> 'a list" where
  "Array_unshift xs x = x # xs"

definition Network_constructor :: "NetworkOptions \<Rightarrow> Network" where
  "Network_constructor options =
     \<lparr>net_protocols =
        (if b100Only options \<noteq> Some True
         then Array_unshift (Array_unshift [BITSWAP100] BITSWAP110) BITSWAP120
         else [BITSWAP100]),
      net_running = False,
      net_maxInboundStreams =
        (case maxInboundStreams options of None \<Rightarrow> DEFAULT_MAX_INBOUND_STREAMS | Some n \<Rightarrow> n),
      net_maxOutboundStreams =
        (case maxOutboundStreams options of None \<Rightarrow> DEFAULT_MAX_OUTBOUND_STREAMS | Some n \<Rightarrow> n),
      net_incomingStreamTimeout =
        (case incomingStreamTimeout options of
           None \<Rightarrow> DEFAULT_INCOMING_STREAM_TIMEOUT | Some n \<Rightarrow> n),
      net_registrarIds = None\<rparr>"

text \<open>What \<^verbatim>\<open>start\<close> asks of libp2p and of the bitswap instance, in order.\<close>

datatype 'peer StartCall =
    Handle "string list" nat nat
  | Register string
  | OnPeerConnected 'peer

text \<open>
  The loop over \<^verbatim>\<open>this._protocols\<close> that registers the topology and pushes each id; it
  stops at the first registration that fails. It answers the error, if any, the ids pushed
  and the calls made.
\<close>

fun register_protocols ::
  "('peer, 'cid) Libp2p \<Rightarrow> string list \<Rightarrow> string list \<Rightarrow>
     Error option \<times> string list \<times> 'peer StartCall list"
where
  "register_protocols lp [] ids = (None, ids, [])"
| "register_protocols lp (protocol # rest) ids =
     (case register lp protocol of
        Inl err \<Rightarrow> (Some err, ids, [Register protocol])
      | Inr regId \<Rightarrow>
          (case register_protocols lp rest (ids @ [regId]) of
             (res, ids', calls) \<Rightarrow> (res, ids', Register protocol # calls)))"

definition Network_start ::
  "('peer, 'cid) Libp2p \<Rightarrow> Network \<Rightarrow> (Error + unit) \<times> Network \<times> 'peer StartCall list" where
  "Network_start lp net =
     (let net1 = net\<lparr>net_running := True\<rparr>;
          call = Handle (net_protocols net1) (net_maxInboundStreams net1) (net_maxOutboundStreams net1)
      in case handle lp (net_protocols net1) of
           Inl err \<Rightarrow> (Inl err, net1, [call])
         | Inr _ \<Rightarrow>
             (case register_protocols lp (net_protocols net1) [] of
                (Some err, ids, calls) \<Rightarrow>
                  (Inl err, net1\<lparr>net_registrarIds := Some ids\<rparr>, call # calls)
              | (None, ids, calls) \<Rightarrow>
                  (Inr (), net1\<lparr>net_registrarIds := Some ids\<rparr>,
                   call # calls @ map (\<lambda>conn. OnPeerConnected (remotePeer conn)) (getConnections lp))))"

text \<open>The protocol lists handed to \<^verbatim>\<open>libp2p.handle\<close>.\<close>

fun handled_protocols :: "'peer StartCall list \<Rightarrow> string list list" where
  "handled_protocols [] = []"
| "handled_protocols (Handle ps i out # cs) = ps # handled_protocols cs"
| "handled_protocols (c # cs) = handled_protocols cs"

definition Network_connectTo ::
  "('peer, 'cid) Libp2p \<Rightarrow> Network \<Rightarrow> 'peer \<Rightarrow> Error + 'peer Connection" where
  "Network_connectTo lp net peer =
     (if \<not> net_running net then Inl (Error ''network isn't running'') else dial lp peer)"

definition Network_findProviders :: "('peer, 'cid) Libp2p \<Rightarrow> 'cid \<Rightarrow> 'peer AsyncIterable" where
  "Network_findProviders lp c = findProviders lp c"

text \<open>
  The \<^verbatim>\<open>for await\<close> loop of \<^verbatim>\<open>findAndConnect\<close>. Each provider's \<^verbatim>\<open>connectTo\<close> is started
  and pushed with its outcome; the loop leaves when \<^verbatim>\<open>found\<close> equals the limit, when the
  iterable ends, or with the error the iterable throws. On an iterable that never ends the
  loop need not return, hence the option.
\<close>

partial_function (option) findAndConnect_loop ::
  "nat \<Rightarrow> ('peer \<Rightarrow> Error + 'peer Connection) \<Rightarrow> 'peer AsyncIterable \<Rightarrow> nat \<Rightarrow>
     ('peer \<times> (Error + 'peer Connection)) list \<Rightarrow>
     ((Error + unit) \<times> ('peer \<times> (Error + 'peer Connection)) list) option"
where
  "findAndConnect_loop limit connect providers found connectAttempts =
     (case providers of
        Done \<Rightarrow> Some (Inr (), connectAttempts)
      | Throw err \<Rightarrow> Some (Inl err, connectAttempts)
      | Yield provider rest \<Rightarrow>
          (if found + 1 = limit
           then Some (Inr (), connectAttempts @ [(provider, connect provider)])
           else findAndConnect_loop limit connect rest (found + 1)
                  (connectAttempts @ [(provider, connect provider)])))"

text \<open>
  \<^verbatim>\<open>findAndConnect\<close>; the limit is \<^verbatim>\<open>CONSTANTS.maxProvidersPerRequest\<close>. Every attempt
  carries a \<^verbatim>\<open>catch\<close> that logs, so \<^verbatim>\<open>Promise.all\<close> over the attempts always resolves. The
  result is the outcome of the call and the attempts made, each with what the dial answered.
\<close>

definition Network_findAndConnect ::
  "nat \<Rightarrow> ('peer, 'cid) Libp2p \<Rightarrow> Network \<Rightarrow> 'cid \<Rightarrow>
     ((Error + unit) \<times> ('peer \<times> (Error + 'peer Connection)) list) option" where
  "Network_findAndConnect limit lp net c =
     findAndConnect_loop limit (Network_connectTo lp net) (Network_findProviders lp c) 0 []"

text \<open>
  Modelled from the spec: src/constants.js is not among the sources; section 6 of the
  specification gives \<^verbatim>\<open>max_providers_per_request\<close> the default 10.
\<close>

definition maxProvidersPerRequest :: nat where
  "maxProvidersPerRequest = 10"

text \<open>
  The first \<open>n\<close> values an iterable yields, and the error it throws before yielding \<open>n\<close>
  values, if it does.
\<close>

fun iterate :: "nat \<Rightarrow> 'a AsyncIterable \<Rightarrow> 'a list \<times> Error option" where
  "iterate 0 it = ([], None)"
| "iterate (Suc n) it =
     (case it of
        Done \<Rightarrow> ([], None)
      | Throw err \<Rightarrow> ([], Some err)
      | Yield x rest \<Rightarrow> (x # fst (iterate n rest), snd (iterate n rest)))"

text \<open>An iterable over a list of values.\<close>

primrec iterable_of :: "'a list \<Rightarrow> 'a AsyncIterable" where
  "iterable_of [] = Done"
| "iterable_of (x # xs) = Yield x (iterable_of xs)"

text \<open>An iterable that yields the same value without end.\<close>

primcorec forever :: "'a \<Rightarrow> 'a AsyncIterable" where
  "forever x = Yield x (forever x)"

text \<open>
  \<^verbatim>\<open>sendMessage\<close> up to the stream: it throws when the network is stopped, when the dial
  fails and when no stream is negotiated; \<^verbatim>\<open>writeMessage\<close> catches its own errors.
\<close>

definition Network_sendMessage ::
  "('peer, 'cid) Libp2p \<Rightarrow> Network \<Rightarrow> 'peer \<Rightarrow> Error + string" where
  "Network_sendMessage lp net peer =
     (if \<not> net_running net then Inl (Error ''network isn't running'')
      else case dial lp peer of
             Inl err \<Rightarrow> Inl err
           | Inr connection \<Rightarrow> newStream lp connection [BITSWAP120, BITSWAP110, BITSWAP100])"

section \<open>Messages\<close>

text \<open>
  The class \<^verbatim>\<open>BitswapMessage\<close> (src/message/index.js) is not among the sources; the queue
  only calls it. What follows is taken from sections 3 and 4.1 of the specification.
\<close>

text \<open>
  Modelled from the spec: an entry of a message's wantlist, which the source does not hold.
  Section 4.1 lists its fields on the wire: the CID, \<^verbatim>\<open>priority\<close>, \<^verbatim>\<open>wantType\<close> and
  \<^verbatim>\<open>cancel\<close>.
\<close>

record 'cid MessageEntry =
  me_cid :: 'cid
  me_priority :: nat
  me_wantType :: WantType
  me_cancel :: bool

text \<open>
  Modelled from the spec: the values of \<^verbatim>\<open>block_presences\<close>, which the source does not
  hold. Section 3: \<^verbatim>\<open>Have\<close> or \<^verbatim>\<open>DontHave\<close>.
\<close>

datatype BlockPresence = PresenceHave | PresenceDontHave

text \<open>
  Modelled from the spec: the message, whose class is missing. Section 3:
  \<^verbatim>\<open>(full: bool, wantlist, blocks: mapping cid to bytes, block_presences: mapping cid to
  Have|DontHave, pending_bytes)\<close>, the wantlist being a mapping from CID to entry.
\<close>

record 'cid Message =
  full :: bool
  wantlist :: "('cid, 'cid MessageEntry) JsMap"
  blocks :: "('cid, 8 word list) JsMap"
  blockPresences :: "('cid, BlockPresence) JsMap"
  pendingBytes :: int

text \<open>
  Modelled from the spec: the missing constructor. Section 4.1: \<^verbatim>\<open>new(full: bool)\<close>, a message
  that holds nothing yet.
\<close>

definition new_Message :: "bool \<Rightarrow> 'cid Message" where
  "new_Message f = \<lparr>full = f, wantlist = [], blocks = [], blockPresences = [], pendingBytes = 0\<rparr>"

text \<open>
  Modelled from the spec: the missing method \<^verbatim>\<open>addEntry\<close>. Section 4.1:
  \<^verbatim>\<open>add_entry(cid, priority, want_type=Block, cancel=false)\<close>. The wantlist is a mapping, so
  it holds one entry for a CID: on a CID already present the new entry takes the place of the
  old one.
\<close>

definition Message_addEntry :: "'cid Message \<Rightarrow> 'cid \<Rightarrow> nat \<Rightarrow> WantType \<Rightarrow> bool \<Rightarrow> 'cid Message" where
  "Message_addEntry msg c p wt cancel =
     msg\<lparr>wantlist := Map_set (wantlist msg) c
            \<lparr>me_cid = c, me_priority = p, me_wantType = wt, me_cancel = cancel\<rparr>\<rparr>"

text \<open>
  Modelled from the spec: the missing method \<^verbatim>\<open>cancel\<close>. Section 4.1: \<^verbatim>\<open>cancel(cid)\<close>, the
  entry for the CID becomes a cancel entry.
\<close>

definition Message_cancel :: "'cid Message \<Rightarrow> 'cid \<Rightarrow> 'cid Message" where
  "Message_cancel msg c = Message_addEntry msg c 0 Block True"

text \<open>
  Modelled from the spec: the missing getter \<^verbatim>\<open>empty\<close>. Section 4.1: \<^verbatim>\<open>empty(): bool\<close>; a
  message is empty when it has no wantlist entry, no block and no block presence.
\<close>

definition Message_empty :: "'cid Message \<Rightarrow> bool" where
  "Message_empty msg \<longleftrightarrow> wantlist msg = [] \<and> blocks msg = [] \<and> blockPresences msg = []"

section \<open>The message queue (src/want-manager/msg-queue.ts)\<close>

text \<open>A pending entry \<^verbatim>\<open>{ cid, priority, cancel? }\<close>; \<^verbatim>\<open>cancel\<close> may be missing.\<close>

record 'cid QueueEntry =
  qe_cid :: 'cid
  qe_priority :: nat
  qe_cancel :: "bool option"

text \<open>The fields \<^verbatim>\<open>peerId\<close>, \<^verbatim>\<open>refcnt\<close> and \<^verbatim>\<open>_entries\<close>; the network is passed along.\<close>

record ('peer, 'cid) MsgQueue =
  peerId :: 'peer
  refcnt :: int
  entries :: "'cid QueueEntry list"

definition MsgQueue_constructor :: "'peer \<Rightarrow> ('peer, 'cid) MsgQueue" where
  "MsgQueue_constructor otherPeerId = \<lparr>peerId = otherPeerId, refcnt = 1, entries = []\<rparr>"

text \<open>
  What a call on the queue does to the outside, in order: the call of \<^verbatim>\<open>send\<close> itself, the
  calls \<^verbatim>\<open>network.connectTo\<close> and \<^verbatim>\<open>network.sendMessage\<close>, and the log lines.
\<close>

datatype ('peer, 'cid) Effect =
    Send "'cid Message"
  | ConnectTo 'peer
  | SendMessage 'peer "'cid Message"
  | Log string
  | LogError string

text \<open>
  \<^verbatim>\<open>send\<close>: the promise it returns resolves on every path, since the failure of
  \<^verbatim>\<open>connectTo\<close> is caught and \<^verbatim>\<open>sendMessage\<close> is not awaited and has its own \<^verbatim>\<open>catch\<close>.
\<close>

definition MsgQueue_send ::
  "('peer, 'cid) Libp2p \<Rightarrow> Network \<Rightarrow> ('peer, 'cid) MsgQueue \<Rightarrow> 'cid Message \<Rightarrow>
     (Error + unit) \<times> ('peer, 'cid) Effect list" where
  "MsgQueue_send lp net q msg =
     (case Network_connectTo lp net (peerId q) of
        Inl err \<Rightarrow>
          (Inr (), [Send msg, ConnectTo (peerId q),
                    LogError (''cant connect to peer: '' @ message err)])
      | Inr connection \<Rightarrow>
          (Inr (), [Send msg, ConnectTo (peerId q), Log ''sending message to peer'',
                    SendMessage (peerId q) msg]
                   @ (case Network_sendMessage lp net (peerId q) of
                        Inl err \<Rightarrow> [LogError ''send error'']
                      | Inr protocol \<Rightarrow> [])))"

text \<open>\<^verbatim>\<open>addMessage\<close>: \<^verbatim>\<open>void this.send(msg)\<close> unless the message is empty.\<close>

definition MsgQueue_addMessage ::
  "('peer, 'cid) Libp2p \<Rightarrow> Network \<Rightarrow> ('peer, 'cid) MsgQueue \<Rightarrow> 'cid Message \<Rightarrow>
     ('peer, 'cid) Effect list" where
  "MsgQueue_addMessage lp net q msg =
     (if Message_empty msg then [] else snd (MsgQueue_send lp net q msg))"

text \<open>
  \<^verbatim>\<open>addEntries\<close> appends; the call of the debounced \<^verbatim>\<open>sendEntries\<close> that follows arms a
  timer, and \<^verbatim>\<open>sendEntries\<close> below is what runs when the timer fires.
\<close>

definition MsgQueue_addEntries ::
  "('peer, 'cid) MsgQueue \<Rightarrow> 'cid QueueEntry list \<Rightarrow> ('peer, 'cid) MsgQueue" where
  "MsgQueue_addEntries q es = q\<lparr>entries := entries q @ es\<rparr>"

text \<open>One step of the \<^verbatim>\<open>forEach\<close> in \<^verbatim>\<open>sendEntries\<close>.\<close>

definition add_queue_entry :: "'cid Message \<Rightarrow> 'cid QueueEntry \<Rightarrow> 'cid Message" where
  "add_queue_entry msg entry =
     (if qe_cancel entry = Some True then Message_cancel msg (qe_cid entry)
      else Message_addEntry msg (qe_cid entry) (qe_priority entry) Block False)"

definition MsgQueue_sendEntries ::
  "('peer, 'cid) Libp2p \<Rightarrow> Network \<Rightarrow> ('peer, 'cid) MsgQueue \<Rightarrow>
     ('peer, 'cid) MsgQueue \<times> ('peer, 'cid) Effect list" where
  "MsgQueue_sendEntries lp net q =
     (if length (entries q) = 0 then (q, [])
      else
        (let msg = foldl add_queue_entry (new_Message False) (entries q);
             q' = q\<lparr>entries := []\<rparr>
         in (q', MsgQueue_addMessage lp net q' msg)))"

text \<open>The wantlist entry that one step of the \<^verbatim>\<open>forEach\<close> sets for a pending entry.\<close>

definition entry_for :: "'cid QueueEntry \<Rightarrow> 'cid MessageEntry" where
  "entry_for entry =
     (if qe_cancel entry = Some True
      then \<lparr>me_cid = qe_cid entry, me_priority = 0, me_wantType = Block, me_cancel = True\<rparr>
      else \<lparr>me_cid = qe_cid entry, me_priority = qe_priority entry, me_wantType = Block,
             me_cancel = False\<rparr>)"

text \<open>The messages handed to \<^verbatim>\<open>send\<close> and to \<^verbatim>\<open>network.sendMessage\<close> in a run.\<close>

fun sent :: "('peer, 'cid) Effect list \<Rightarrow> 'cid Message list" where
  "sent [] = []"
| "sent (Send m # es) = m # sent es"
| "sent (e # es) = sent es"

fun sendMessage_calls :: "('peer, 'cid) Effect list \<Rightarrow> ('peer \<times> 'cid Message) list" where
  "sendMessage_calls [] = []"
| "sendMessage_calls (SendMessage p m # es) = (p, m) # sendMessage_calls es"
| "sendMessage_calls (e # es) = sendMessage_calls es"

text \<open>
  A message carries a pending entry when its wantlist holds, for the entry's CID, a cancel
  entry if the pending entry is flagged \<^verbatim>\<open>cancel\<close>, and otherwise a want entry (not a
  cancel) for the block with the pending entry's priority.
\<close>

definition Message_carries :: "'cid Message \<Rightarrow> 'cid QueueEntry \<Rightarrow> bool" where
  "Message_carries msg entry =
     (case Map_get (wantlist msg) (qe_cid entry) of
        None \<Rightarrow> False
      | Some me \<Rightarrow>
          me_cid me = qe_cid entry \<and>
          (if qe_cancel entry = Some True then me_cancel me
           else \<not> me_cancel me \<and> me_priority me = qe_priority entry \<and> me_wantType me = Block))"

section \<open>Example data\<close>

text \<open>
  A libp2p that reaches \<^verbatim>\<open>peerB\<close> only and whose routing knows twelve providers, and a
  started network without options.
\<close>

definition twelve_providers :: "string list" where
  "twelve_providers =
     [''peerA'', ''peerB'', ''peerC'', ''peerD'', ''peerE'', ''peerF'', ''peerG'', ''peerH'',
      ''peerI'', ''peerJ'', ''peerK'', ''peerL'']"

definition libp2p_example :: "(string, 8 word list) Libp2p" where
  "libp2p_example =
     \<lparr>dial = (\<lambda>peer. if peer = ''peerB'' then Inr (Connection peer) else Inl (Error ''dial failed'')),
      newStream = (\<lambda>connection protocols. Inr BITSWAP120),
      handle = (\<lambda>protocols. Inr ()),
      register = (\<lambda>protocol. Inr protocol),
      getConnections = [],
      findProviders = (\<lambda>c. iterable_of twelve_providers)\<rparr>"

definition network_example :: Network where
  "network_example = (Network_constructor no_options)\<lparr>net_running := True\<rparr>"

text \<open>
  A queue for \<^verbatim>\<open>peerB\<close> and one for \<^verbatim>\<open>peerC\<close>, each holding what
  \<^verbatim>\<open>addEntries\<close> leaves after a want for a CID and then a cancel for the same CID, and a
  queue for \<^verbatim>\<open>peerB\<close> holding a want and a cancel for two different CIDs.
\<close>

definition want_hello :: "8 word list QueueEntry" where
  "want_hello = \<lparr>qe_cid = cid_hello_sha256, qe_priority = 1, qe_cancel = None\<rparr>"

definition cancel_hello :: "8 word list QueueEntry" where
  "cancel_hello = \<lparr>qe_cid = cid_hello_sha256, qe_priority = 1, qe_cancel = Some True\<rparr>"

definition cancel_hello512 :: "8 word list QueueEntry" where
  "cancel_hello512 = \<lparr>qe_cid = cid_hello_sha512, qe_priority = 1, qe_cancel = Some True\<rparr>"

definition queue_want_cancel :: "(string, 8 word list) MsgQueue" where
  "queue_want_cancel =
     MsgQueue_addEntries (MsgQueue_addEntries (MsgQueue_constructor ''peerB'') [want_hello])
       [cancel_hello]"

definition queue_two_cids :: "(string, 8 word list) MsgQueue" where
  "queue_two_cids =
     MsgQueue_addEntries (MsgQueue_addEntries (MsgQueue_constructor ''peerB'') [want_hello])
       [cancel_hello512]"

definition queue_unreachable :: "(string, 8 word list) MsgQueue" where
  "queue_unreachable = MsgQueue_addEntries (MsgQueue_constructor ''peerC'') [want_hello]"

definition message_want_hello :: "8 word list Message" where
  "message_want_hello = Message_addEntry (new_Message False) cid_hello_sha256 1 Block False"

text \<open>
  A queue for \<^verbatim>\<open>peerB\<close> holding a want for one CID, and a want and then a cancel for
  another CID.
\<close>

definition want_hello512 :: "8 word list QueueEntry" where
  "want_hello512 = \<lparr>qe_cid = cid_hello_sha512, qe_priority = 7, qe_cancel = None\<rparr>"

definition queue_repeated_cid :: "(string, 8 word list) MsgQueue" where
  "queue_repeated_cid =
     MsgQueue_addEntries
       (MsgQueue_addEntries (MsgQueue_constructor ''peerB'') [want_hello512, want_hello])
       [cancel_hello]"

text \<open>A message with no wantlist entry and no block, telling of one block it has.\<close>

definition message_presence_only :: "8 word list Message" where
  "message_presence_only =
     (new_Message False)\<lparr>blockPresences := [(cid_hello_sha256, PresenceHave)]\<rparr>"

section \<open>Properties of the wantlist entry\<close>

lemma call_entry_nonneg: "0 \<le> refCounter e \<Longrightarrow> 0 \<le> refCounter (call_entry e c)"
  by (cases c) (simp_all add: WantListEntry_inc_def WantListEntry_dec_def)

lemma call_entry_seq_nonneg: "0 \<le> refCounter e \<Longrightarrow> 0 \<le> refCounter (foldl call_entry e cs)"
  by (induction cs arbitrary: e) (simp_all add: call_entry_nonneg)

text \<open>
  Claim C7. Whatever sequence of \<^verbatim>\<open>inc\<close> and \<^verbatim>\<open>dec\<close> calls is applied to an entry, its
  reference count stays at or above 0: this holds for an entry fresh from the constructor and
  for any entry whose count is not negative, and \<^verbatim>\<open>dec\<close> on a count of 0 leaves it at 0.
\<close>

theorem refCounter_never_negative:
  "0 \<le> refCounter (call_entry_seq (new_WantListEntry c p wt) cs)
   \<and> (0 \<le> refCounter e \<longrightarrow> 0 \<le> refCounter (call_entry_seq e cs))
   \<and> (refCounter e = 0 \<longrightarrow> refCounter (WantListEntry_dec e) = 0)"
proof -
  have "0 \<le> refCounter (new_WantListEntry c p wt)"
    by (simp add: new_WantListEntry_def)
  then show ?thesis
    by (simp add: call_entry_seq_def call_entry_seq_nonneg WantListEntry_dec_def)
qed

theorem refCounter_never_negative_witness:
  "0 \<le> refCounter (call_entry_seq (new_WantListEntry ''Qm1'' 2 None) [Dec, Dec, Inc, Dec, Dec])
   \<and> 0 \<le> refCounter (new_WantListEntry ''Qm1'' 2 None)
   \<and> 0 \<le> refCounter (call_entry_seq (new_WantListEntry ''Qm1'' 2 None) [Dec, Dec])
   \<and> refCounter (WantListEntry_dec (new_WantListEntry ''Qm1'' 2 None)) = 0
   \<and> refCounter (WantListEntry_dec (WantListEntry_dec (new_WantListEntry ''Qm1'' 2 None))) = 0"
  using refCounter_never_negative
    [of "''Qm1''" 2 None "[Dec, Dec, Inc, Dec, Dec]" "new_WantListEntry ''Qm1'' 2 None"]
    refCounter_never_negative
    [of "''Qm1''" 2 None "[Dec, Dec]" "WantListEntry_dec (new_WantListEntry ''Qm1'' 2 None)"]
  by (simp add: new_WantListEntry_def WantListEntry_dec_def)

section \<open>Properties of the wantlist\<close>

lemma Map_get_set: "Map_get (Map_set m k v) k' = (if k' = k then Some v else Map_get m k')"
  by (simp add: Map_get_def Map_set_def update_conv')

lemma Map_get_delete: "Map_get (Map_delete m k) k' = (if k' = k then None else Map_get m k')"
  by (simp add: Map_get_def Map_delete_def delete_conv')

lemma Map_get_None_iff: "Map_get m k = None \<longleftrightarrow> k \<notin> fst ` set m"
  by (simp add: Map_get_def map_of_eq_None_iff)

lemma Map_size_set:
  "Map_size (Map_set m k v) = (if Map_get m k = None then Suc (Map_size m) else Map_size m)"
  by (induction m) (auto simp: Map_size_def Map_set_def Map_get_def)

text \<open>
  Claim C5. \<^verbatim>\<open>add\<close> on a CID whose key is in the wantlist keeps the entry and raises its
  reference count by one (the priority becomes the one passed); on a CID whose key is not in
  the wantlist it inserts the entry the constructor builds for that CID, whose reference
  count is 1, and the wantlist grows by one. Entries under other keys are untouched.
\<close>

theorem Wantlist_add_refcount:
  "(Map_get wl (toStr c) = Some entry \<longrightarrow>
      Map_get (Wantlist_add toStr wl c p) (toStr c)
        = Some (entry\<lparr>refCounter := refCounter entry + 1, priority := p\<rparr>)
      \<and> Wantlist_length (Wantlist_add toStr wl c p) = Wantlist_length wl)
   \<and> (Map_get wl (toStr c) = None \<longrightarrow>
      Map_get (Wantlist_add toStr wl c p) (toStr c) = Some (new_WantListEntry c p None)
      \<and> refCounter (new_WantListEntry c p None) = 1
      \<and> cid (new_WantListEntry c p None) = c
      \<and> Wantlist_length (Wantlist_add toStr wl c p) = Suc (Wantlist_length wl))
   \<and> (k \<noteq> toStr c \<longrightarrow> Map_get (Wantlist_add toStr wl c p) k = Map_get wl k)"
  by (cases "Map_get wl (toStr c)")
     (simp_all add: Wantlist_add_def Map_get_set Map_size_set Wantlist_length_def
        WantListEntry_inc_def new_WantListEntry_def)

theorem Wantlist_add_refcount_witness:
  "Map_get (Wantlist_add (\<lambda>s. s) new_Wantlist ''QmA'' 3) ''QmA''
     = Some \<lparr>refCounter = 1, cid = ''QmA'', priority = 3, wantType = None\<rparr>
   \<and> Map_get (Wantlist_add (\<lambda>s. s) (Wantlist_add (\<lambda>s. s) new_Wantlist ''QmA'' 3) ''QmA'' 5) ''QmA''
     = Some \<lparr>refCounter = 2, cid = ''QmA'', priority = 5, wantType = None\<rparr>
   \<and> Map_get (Wantlist_add (\<lambda>s. s) (Wantlist_add (\<lambda>s. s) new_Wantlist ''QmA'' 3) ''QmB'' 5) ''QmA''
     = Some \<lparr>refCounter = 1, cid = ''QmA'', priority = 3, wantType = None\<rparr>"
proof -
  let ?wl = "Wantlist_add (\<lambda>s. s) new_Wantlist ''QmA'' 3"
  have absent: "Map_get (new_Wantlist :: string Wantlist) ''QmA'' = None"
    by (simp add: new_Wantlist_def Map_get_def)
  have first: "Map_get ?wl ''QmA'' = Some \<lparr>refCounter = 1, cid = ''QmA'', priority = 3, wantType = None\<rparr>"
    using absent Wantlist_add_refcount [of new_Wantlist "\<lambda>s. s" "''QmA''" undefined 3 "''QmA''"]
    by (simp add: new_WantListEntry_def)
  have second: "Map_get (Wantlist_add (\<lambda>s. s) ?wl ''QmA'' 5) ''QmA''
       = Some \<lparr>refCounter = 2, cid = ''QmA'', priority = 5, wantType = None\<rparr>"
    using first Wantlist_add_refcount [of ?wl "\<lambda>s. s" "''QmA''"
        "\<lparr>refCounter = 1, cid = ''QmA'', priority = 3, wantType = None\<rparr>" 5 "''QmA''"]
    by simp
  have other: "Map_get (Wantlist_add (\<lambda>s. s) ?wl ''QmB'' 5) ''QmA'' = Map_get ?wl ''QmA''"
    using Wantlist_add_refcount [of ?wl "\<lambda>s. s" "''QmB''" undefined 5 "''QmA''"]
    by simp
  from first second other show ?thesis by simp
qed

text \<open>
  Claim C6. \<^verbatim>\<open>remove\<close> on a CID whose key is in the wantlist lowers the entry's reference
  count by one (never below 0); the entry is gone afterwards exactly when the lowered count
  is 0, and while the lowered count is positive the entry stays, holding the lowered count.
  Entries under other keys are untouched.
\<close>

theorem Wantlist_remove_refcount:
  "Map_get wl (toStr c) = Some entry \<Longrightarrow>
     refCounter (WantListEntry_dec entry) = max 0 (refCounter entry - 1)
     \<and> (Map_get (Wantlist_remove toStr wl c) (toStr c) = None
          \<longleftrightarrow> refCounter (WantListEntry_dec entry) = 0)
     \<and> (0 < refCounter (WantListEntry_dec entry) \<longrightarrow>
          Map_get (Wantlist_remove toStr wl c) (toStr c) = Some (WantListEntry_dec entry))
     \<and> (k \<noteq> toStr c \<longrightarrow> Map_get (Wantlist_remove toStr wl c) k = Map_get wl k)"
  by (auto simp: Wantlist_remove_def Let_def Map_get_set Map_get_delete WantListEntry_hasRefs_def
        WantListEntry_dec_def)

theorem Wantlist_remove_refcount_witness:
  "Map_get (Wantlist_remove (\<lambda>s. s)
       [(''QmA'', \<lparr>refCounter = 2, cid = ''QmA'', priority = 3, wantType = None\<rparr>)] ''QmA'') ''QmA''
     = Some \<lparr>refCounter = 1, cid = ''QmA'', priority = 3, wantType = None\<rparr>
   \<and> Map_get (Wantlist_remove (\<lambda>s. s)
       [(''QmA'', \<lparr>refCounter = 1, cid = ''QmA'', priority = 3, wantType = None\<rparr>)] ''QmA'') ''QmA''
     = None"
proof -
  let ?e2 = "\<lparr>refCounter = 2, cid = ''QmA'', priority = 3, wantType = None\<rparr>"
  let ?e1 = "\<lparr>refCounter = 1, cid = ''QmA'', priority = 3, wantType = None\<rparr>"
  have g2: "Map_get [(''QmA'', ?e2)] ''QmA'' = Some ?e2"
    by (simp add: Map_get_def)
  have g1: "Map_get [(''QmA'', ?e1)] ''QmA'' = Some ?e1"
    by (simp add: Map_get_def)
  show ?thesis
    using g2 g1
      Wantlist_remove_refcount [of "[(''QmA'', ?e2)]" "\<lambda>s. s" "''QmA''" ?e2 "''QmA''"]
      Wantlist_remove_refcount [of "[(''QmA'', ?e1)]" "\<lambda>s. s" "''QmA''" ?e1 "''QmA''"]
    by (simp add: WantListEntry_dec_def)
qed

lemma Wantlist_contains_iff: "Wantlist_contains toStr wl c \<longleftrightarrow> toStr c \<in> fst ` set wl"
  by (simp add: Wantlist_contains_def Map_get_None_iff)

text \<open>
  Claim C9, at the earlier revision of \<^verbatim>\<open>contains\<close> (lines 52 to 54). After
  \<^verbatim>\<open>add(key, 2)\<close> on an empty wantlist, \<^verbatim>\<open>contains(key)\<close> evaluates to the entry object,
  not to the boolean \<^verbatim>\<open>true\<close> that test/wantlist.spec.js expects; on a key that is absent it
  evaluates to \<^verbatim>\<open>undefined\<close>, not to \<^verbatim>\<open>false\<close>. The later revision (lines 116 to 119)
  returns the boolean, see \<open>Wantlist_contains_iff\<close>.
\<close>

theorem Wantlist_contains_rev1_returns_entry:
  "Wantlist_contains_rev1 (\<lambda>s. s) (Wantlist_add (\<lambda>s. s) new_Wantlist ''hello'' 2) ''hello''
     = JsObject \<lparr>refCounter = 1, cid = ''hello'', priority = 2, wantType = None\<rparr>
   \<and> Wantlist_contains_rev1 (\<lambda>s. s) (Wantlist_add (\<lambda>s. s) new_Wantlist ''hello'' 2) ''hello''
     \<noteq> JsBoolean True
   \<and> Wantlist_contains_rev1 (\<lambda>s. s) (Wantlist_add (\<lambda>s. s) new_Wantlist ''hello'' 2) ''world''
     = JsUndefined
   \<and> Wantlist_contains (\<lambda>s. s) (Wantlist_add (\<lambda>s. s) new_Wantlist ''hello'' 2) ''hello''
   \<and> \<not> Wantlist_contains (\<lambda>s. s) (Wantlist_add (\<lambda>s. s) new_Wantlist ''hello'' 2) ''world''"
  by (simp add: Wantlist_contains_rev1_def Wantlist_contains_def Wantlist_add_def new_Wantlist_def
        Map_get_def Map_set_def new_WantListEntry_def)

section \<open>Properties of the sorted entries\<close>

lemma base58_digits_0: "base58_digits 0 = []"
  by (simp add: base58_digits.simps)

lemma base58_digits_step:
  "r < 58 \<Longrightarrow> 0 < 58 * q + r \<Longrightarrow>
     base58_digits (58 * q + r) = base58_digits q @ [base58_alphabet ! r]"
  by (subst base58_digits.simps) simp

lemma horner_pos: "xs \<noteq> [] \<Longrightarrow> hd xs \<noteq> 0 \<Longrightarrow> 0 < foldl (\<lambda>a d. 58 * a + d) (0::nat) xs"
  by (induction xs rule: rev_induct) (auto simp: hd_append split: if_splits)

lemma base58_digits_horner:
  "\<forall>d\<in>set ds. d < 58 \<Longrightarrow> (ds \<noteq> [] \<longrightarrow> hd ds \<noteq> 0) \<Longrightarrow>
     base58_digits (foldl (\<lambda>a d. 58 * a + d) 0 ds) = map (\<lambda>d. base58_alphabet ! d) ds"
proof (induction ds rule: rev_induct)
  case Nil
  show ?case by (simp add: base58_digits_0)
next
  case (snoc x xs)
  have x: "x < 58" using snoc.prems by simp
  show ?case
  proof (cases "xs = []")
    case True
    with snoc.prems have "0 < x" by simp
    with x True show ?thesis
      using base58_digits_step [of x 0] by (simp add: base58_digits_0)
  next
    case False
    with snoc.prems have hd: "hd xs \<noteq> 0" by simp
    have pos: "0 < foldl (\<lambda>a d. 58 * a + d) (0::nat) xs"
      using False hd by (rule horner_pos)
    have ih: "base58_digits (foldl (\<lambda>a d. 58 * a + d) 0 xs) = map (\<lambda>d. base58_alphabet ! d) xs"
      using snoc.IH snoc.prems False hd by simp
    show ?thesis
      using base58_digits_step [OF x, of "foldl (\<lambda>a d. 58 * a + d) 0 xs"] pos ih by simp
  qed
qed

lemma base58btc_hello_sha256: "base58btc cid_hello_sha256 = ''QmRN6wdp1S2A5EtjW9A3M1vKSBuQQGcgvuhoMUoEz4iiT5''"
proof -
  let ?ds = "[23, 44, 24, 21, 5, 54, 36, 47, 0, 25, 1, 9, 4, 13, 51, 42, 29, 8, 9, 2, 20, 0, 53, 18, 25, 10, 52, 23, 23, 15, 35, 39, 53, 52, 40, 46, 20, 27, 46, 13, 57, 3, 41, 41, 26, 4] :: nat list"
  have n: "bytes_to_nat cid_hello_sha256 = foldl (\<lambda>a d. 58 * a + d) 0 ?ds"
    by (simp add: bytes_to_nat_def cid_hello_sha256_def)
  have "base58_digits (foldl (\<lambda>a d. 58 * a + d) 0 ?ds) = map (\<lambda>d. base58_alphabet ! d) ?ds"
    by (rule base58_digits_horner) simp_all
  then have "base58_digits (bytes_to_nat cid_hello_sha256) = ''QmRN6wdp1S2A5EtjW9A3M1vKSBuQQGcgvuhoMUoEz4iiT5''"
    unfolding n by (simp add: base58_alphabet_def)
  then show ?thesis
    by (simp add: base58btc_def cid_hello_sha256_def)
qed

lemma base58btc_hello_sha512: "base58btc cid_hello_sha512 = ''8VvtnjJxjVhuoxVbuUsucwewoxPUu974mvuEhGWgrSEvJrASGkpwRYsTfuX3hWEoaC8YMaCcdKosq6wqEYoE7LNdD4''"
proof -
  let ?ds = "[7, 28, 53, 51, 45, 42, 17, 55, 42, 28, 40, 52, 46, 55, 28, 34, 52, 27, 50, 52, 35, 54, 37, 54, 46, 55, 22, 27, 52, 8, 6, 3, 44, 53, 52, 13, 40, 15, 29, 39, 49, 25, 13, 53, 17, 49, 9, 25, 15, 43, 47, 54, 24, 31, 50, 26, 38, 52, 30, 2, 40, 29, 13, 46, 33, 11, 7, 31, 20, 33, 11, 35, 36, 18, 46, 50, 48, 5, 54, 48, 13, 31, 46, 13, 6, 19, 21, 36, 12, 3] :: nat list"
  have n: "bytes_to_nat cid_hello_sha512 = foldl (\<lambda>a d. 58 * a + d) 0 ?ds"
    by (simp add: bytes_to_nat_def cid_hello_sha512_def)
  have "base58_digits (foldl (\<lambda>a d. 58 * a + d) 0 ?ds) = map (\<lambda>d. base58_alphabet ! d) ?ds"
    by (rule base58_digits_horner) simp_all
  then have "base58_digits (bytes_to_nat cid_hello_sha512) = ''8VvtnjJxjVhuoxVbuUsucwewoxPUu974mvuEhGWgrSEvJrASGkpwRYsTfuX3hWEoaC8YMaCcdKosq6wqEYoE7LNdD4''"
    unfolding n by (simp add: base58_alphabet_def)
  then show ?thesis
    by (simp add: base58btc_def cid_hello_sha512_def)
qed

lemma update_fresh: "k \<notin> fst ` set m \<Longrightarrow> AList.update k v m = m @ [(k, v)]"
  by (induction m) auto

lemma foldl_Map_set_distinct:
  "distinct (map fst (acc @ ps)) \<Longrightarrow> foldl (\<lambda>m (k, v). Map_set m k v) acc ps = acc @ ps"
proof (induction ps arbitrary: acc)
  case Nil
  show ?case by simp
next
  case (Cons p ps)
  obtain k v where p: "p = (k, v)" by (cases p)
  from Cons.prems p have fresh: "k \<notin> fst ` set acc" by auto
  have "distinct (map fst ((acc @ [(k, v)]) @ ps))"
    using Cons.prems p by simp
  from Cons.IH [OF this] show ?case
    using fresh p by (simp add: Map_set_def update_fresh)
qed

lemma new_Map_distinct: "distinct (map fst ps) \<Longrightarrow> new_Map ps = ps"
  using foldl_Map_set_distinct [of "[]" ps] by (simp add: new_Map_def)

lemma key_less_imp_joined_less:
  "\<forall>ch\<in>set k2. CHR '','' < ch \<Longrightarrow> k1 < k2 \<Longrightarrow> k1 @ CHR '','' # s1 < k2 @ CHR '','' # s2"
proof (induction k1 arbitrary: k2)
  case Nil
  then show ?case by (cases k2) auto
next
  case (Cons a as)
  then show ?case by (cases k2) auto
qed

lemma Array_toString_mono:
  assumes "\<forall>ch\<in>set (fst q). CHR '','' < ch" and "fst p < fst q"
  shows "Array_toString b58 p < Array_toString b58 q"
  using key_less_imp_joined_less [OF assms] by (simp add: Array_toString_def)

lemma Array_toString_le_imp_key_le:
  assumes "\<forall>ch\<in>set (fst p). CHR '','' < ch"
    and "Array_toString b58 p \<le> Array_toString b58 q"
  shows "fst p \<le> fst q"
proof (rule ccontr)
  assume "\<not> fst p \<le> fst q"
  then have "fst q < fst p" by simp
  then have "Array_toString b58 q < Array_toString b58 p"
    using assms(1) by (rule Array_toString_mono [rotated])
  with assms(2) show False by simp
qed

lemma filter_singleton:
  "distinct zs \<Longrightarrow> k \<in> set zs \<Longrightarrow> \<forall>x\<in>set zs. f k = f x \<longrightarrow> x = k \<Longrightarrow>
     filter (\<lambda>x. f k = f x) zs = [k]"
proof (induction zs)
  case Nil
  then show ?case by simp
next
  case (Cons z zs)
  show ?case
  proof (cases "z = k")
    case True
    with Cons.prems have "\<forall>x\<in>set zs. f k \<noteq> f x" by auto
    then have "filter (\<lambda>x. f k = f x) zs = []" by (simp add: filter_empty_conv)
    with True show ?thesis by simp
  next
    case False
    with Cons.prems have "f k \<noteq> f z" by auto
    moreover have "filter (\<lambda>x. f k = f x) zs = [k]"
      using Cons.IH Cons.prems False by auto
    ultimately show ?thesis by simp
  qed
qed

text \<open>
  Claim C8, as amended. On a wantlist whose keys are distinct and made of characters above the
  comma (the base58 and base32 alphabets are), \<^verbatim>\<open>sortedEntries\<close> returns the same entries,
  in ascending order of their string keys, compared code unit by code unit; and two such
  wantlists with the same entries, whatever the order in which they were added, give the same
  sequence.
\<close>

theorem Wantlist_sortedEntries_by_string_key:
  assumes keys: "distinct (map fst wl)"
    and chars: "\<forall>k\<in>fst ` set wl. \<forall>ch\<in>set k. CHR '','' < ch"
  shows "set (Wantlist_sortedEntries b58 wl) = set wl
     \<and> length (Wantlist_sortedEntries b58 wl) = length wl
     \<and> sorted (map fst (Wantlist_sortedEntries b58 wl))
     \<and> (distinct (map fst wl') \<and> set wl' = set wl \<longrightarrow>
          Wantlist_sortedEntries b58 wl' = Wantlist_sortedEntries b58 wl)"
proof -
  let ?f = "Array_toString b58"
  let ?ys = "sort_key ?f wl"
  have m: "mset ?ys = mset wl" by simp
  then have "mset (map fst ?ys) = mset (map fst wl)" by (metis mset_map)
  then have dys: "distinct (map fst ?ys)"
    using keys by (metis mset_eq_imp_distinct_iff)
  then have res: "Wantlist_sortedEntries b58 wl = ?ys"
    by (simp add: Wantlist_sortedEntries_def Array_sort_def Wantlist_entries_def new_Map_distinct)
  have ok: "\<forall>ch\<in>set (fst p). CHR '','' < ch" if "p \<in> set wl" for p
    using chars that by auto
  have "sorted_wrt (\<lambda>x y. ?f x \<le> ?f y) ?ys"
    using sorted_sort_key [of ?f wl] by (simp add: sorted_map)
  then have "sorted_wrt (\<lambda>x y. fst x \<le> fst y) ?ys"
  proof (rule sorted_wrt_mono_rel [rotated])
    fix x y assume "x \<in> set ?ys" "y \<in> set ?ys" "?f x \<le> ?f y"
    then show "fst x \<le> fst y"
      using ok [of x] by (auto intro: Array_toString_le_imp_key_le)
  qed
  then have srt: "sorted (map fst ?ys)" by (simp add: sorted_map)
  have inj: "x = y" if "x \<in> set wl" "y \<in> set wl" "?f x = ?f y" for x y
  proof -
    have "fst x \<le> fst y"
      using ok [OF that(1)] that(3) by (intro Array_toString_le_imp_key_le [of x b58 y]) simp_all
    moreover have "fst y \<le> fst x"
      using ok [OF that(2)] that(3) by (intro Array_toString_le_imp_key_le [of y b58 x]) simp_all
    ultimately have "fst x = fst y" by simp
    with keys that(1,2) show ?thesis
      by (metis eq_key_imp_eq_value prod.collapse)
  qed
  have det: "Wantlist_sortedEntries b58 wl' = Wantlist_sortedEntries b58 wl"
    if d': "distinct (map fst wl')" and s': "set wl' = set wl"
  proof -
    have dwl: "distinct wl" "distinct wl'"
      using keys d' by (auto simp: distinct_map)
    then have m': "mset wl' = mset wl"
      using s' by (simp add: set_eq_iff_mset_eq_distinct)
    have dys': "distinct ?ys" using dwl by simp
    have "sort_key ?f wl' = ?ys"
    proof (rule properties_for_sort_key)
      show "mset ?ys = mset wl'" using m' by simp
      show "sorted (map ?f ?ys)" by (rule sorted_sort_key)
      fix k assume k: "k \<in> set ?ys"
      then have kin: "k \<in> set wl" by simp
      have "filter (\<lambda>x. ?f k = ?f x) ?ys = [k]"
        using dys' k inj kin by (intro filter_singleton) auto
      moreover have "filter (\<lambda>x. ?f k = ?f x) wl' = [k]"
        using dwl(2) kin s' inj by (intro filter_singleton) auto
      ultimately show "filter (\<lambda>x. ?f k = ?f x) ?ys = filter (\<lambda>x. ?f k = ?f x) wl'" by simp
    qed
    moreover have "distinct (map fst (sort_key ?f wl'))"
      using d' by (metis mset_eq_imp_distinct_iff mset_map mset_sort)
    ultimately show ?thesis
      using res by (simp add: Wantlist_sortedEntries_def Array_sort_def Wantlist_entries_def new_Map_distinct)
  qed
  show ?thesis
    using res srt det by simp
qed


lemma wantlist_256_512_eq:
  "wantlist_256_512 =
     [(''QmRN6wdp1S2A5EtjW9A3M1vKSBuQQGcgvuhoMUoEz4iiT5'', new_WantListEntry cid_hello_sha256 1 None),
      (''8VvtnjJxjVhuoxVbuUsucwewoxPUu974mvuEhGWgrSEvJrASGkpwRYsTfuX3hWEoaC8YMaCcdKosq6wqEYoE7LNdD4'',
       new_WantListEntry cid_hello_sha512 1 None)]"
  by (simp add: wantlist_256_512_def Wantlist_add_def new_Wantlist_def Map_get_def Map_set_def base58btc_hello_sha256 base58btc_hello_sha512)

lemma wantlist_512_256_eq:
  "wantlist_512_256 =
     [(''8VvtnjJxjVhuoxVbuUsucwewoxPUu974mvuEhGWgrSEvJrASGkpwRYsTfuX3hWEoaC8YMaCcdKosq6wqEYoE7LNdD4'',
       new_WantListEntry cid_hello_sha512 1 None),
      (''QmRN6wdp1S2A5EtjW9A3M1vKSBuQQGcgvuhoMUoEz4iiT5'', new_WantListEntry cid_hello_sha256 1 None)]"
  by (simp add: wantlist_512_256_def Wantlist_add_def new_Wantlist_def Map_get_def Map_set_def base58btc_hello_sha256 base58btc_hello_sha512)

lemma sorted_256_512:
  "Wantlist_sortedEntries base58btc wantlist_256_512 = wantlist_512_256"
  by (simp add: wantlist_256_512_eq wantlist_512_256_eq Wantlist_sortedEntries_def Array_sort_def
        Wantlist_entries_def Array_toString_def new_Map_def Map_set_def)

text \<open>
  Claim C8 as stated fails: the order is the order of the strings, not of the canonical bytes.
  The sha2-256 CID of \<^verbatim>\<open>hello\<close> is below the sha2-512 CID in byte order (0x12 before 0x13),
  but its string starts with \<^verbatim>\<open>Q\<close> and the other with \<^verbatim>\<open>8\<close>, so \<^verbatim>\<open>sortedEntries\<close>
  puts the sha2-512 CID first.
\<close>

theorem Wantlist_sortedEntries_not_byte_order:
  "map (cid \<circ> snd) (Wantlist_sortedEntries base58btc wantlist_256_512)
     = [cid_hello_sha512, cid_hello_sha256]
   \<and> cid_hello_sha256 < cid_hello_sha512
   \<and> \<not> sorted (map (cid \<circ> snd) (Wantlist_sortedEntries base58btc wantlist_256_512))"
proof -
  have lt: "cid_hello_sha256 < cid_hello_sha512"
    by (simp add: cid_hello_sha256_def cid_hello_sha512_def)
  have m: "map (cid \<circ> snd) (Wantlist_sortedEntries base58btc wantlist_256_512)
     = [cid_hello_sha512, cid_hello_sha256]"
    by (simp add: sorted_256_512 wantlist_512_256_eq new_WantListEntry_def)
  from lt have "\<not> cid_hello_sha512 \<le> cid_hello_sha256" by simp
  with lt m show ?thesis by simp
qed

theorem Wantlist_sortedEntries_by_string_key_witness:
  "distinct (map fst wantlist_256_512)
   \<and> list_all (list_all ((<) (CHR '',''))) (map fst wantlist_256_512)
   \<and> distinct (map fst wantlist_512_256)
   \<and> set wantlist_512_256 = set wantlist_256_512
   \<and> sorted (map fst (Wantlist_sortedEntries base58btc wantlist_256_512))
   \<and> Wantlist_sortedEntries base58btc wantlist_512_256
       = Wantlist_sortedEntries base58btc wantlist_256_512"
proof -
  have d: "distinct (map fst wantlist_256_512)"
    by (simp add: wantlist_256_512_eq)
  have c: "\<forall>k\<in>fst ` set wantlist_256_512. \<forall>ch\<in>set k. CHR '','' < ch"
    by (simp add: wantlist_256_512_eq)
  have d': "distinct (map fst wantlist_512_256)"
    by (simp add: wantlist_512_256_eq)
  have s: "set wantlist_512_256 = set wantlist_256_512"
    by (auto simp: wantlist_256_512_eq wantlist_512_256_eq)
  have c': "list_all (list_all ((<) (CHR '',''))) (map fst wantlist_256_512)"
    using c by (simp add: list_all_iff)
  from Wantlist_sortedEntries_by_string_key [OF d c, of base58btc wantlist_512_256] d c' d' s
  show ?thesis by simp
qed

section \<open>Properties of the network adapter\<close>

lemma handled_protocols_register:
  "handled_protocols (snd (snd (register_protocols lp ps ids))) = []"
proof (induction ps arbitrary: ids)
  case Nil
  show ?case by simp
next
  case (Cons p ps)
  show ?case
  proof (cases "register lp p")
    case (Inl err)
    then show ?thesis by simp
  next
    case (Inr regId)
    obtain res ids' calls where r: "register_protocols lp ps (ids @ [regId]) = (res, ids', calls)"
      by (cases "register_protocols lp ps (ids @ [regId])")
    with Cons.IH [of "ids @ [regId]"] have "handled_protocols calls = []" by simp
    with Inr r show ?thesis by simp
  qed
qed

lemma handled_protocols_append:
  "handled_protocols (xs @ ys) = handled_protocols xs @ handled_protocols ys"
  by (induction xs rule: handled_protocols.induct) simp_all

lemma handled_protocols_connected:
  "handled_protocols (map (\<lambda>conn. OnPeerConnected (f conn)) conns) = []"
  by (induction conns) simp_all

lemma handled_protocols_start:
  "handled_protocols (snd (snd (Network_start lp net))) = [net_protocols net]"
  using handled_protocols_register [of lp "net_protocols net" "[]"]
  by (auto simp: Network_start_def Let_def handled_protocols_append handled_protocols_connected
      split: sum.splits prod.splits option.splits)

text \<open>
  Claim C3. A network built with \<^verbatim>\<open>b100Only\<close> false or left out holds the protocols 1.2.0,
  1.1.0, 1.0.0 in that order; built with \<^verbatim>\<open>b100Only\<close> true it holds 1.0.0 alone; and
  \<^verbatim>\<open>start\<close> hands exactly that list to \<^verbatim>\<open>libp2p.handle\<close>, once.
\<close>

theorem Network_protocols_advertised:
  "(b100Only options \<noteq> Some True \<longrightarrow>
      net_protocols (Network_constructor options)
        = [''/ipfs/bitswap/1.2.0'', ''/ipfs/bitswap/1.1.0'', ''/ipfs/bitswap/1.0.0''])
   \<and> (b100Only options = Some True \<longrightarrow>
      net_protocols (Network_constructor options) = [''/ipfs/bitswap/1.0.0''])
   \<and> handled_protocols (snd (snd (Network_start lp (Network_constructor options))))
        = [net_protocols (Network_constructor options)]"
  by (simp add: handled_protocols_start)
     (simp add: Network_constructor_def Array_unshift_def BITSWAP100_def BITSWAP110_def
        BITSWAP120_def)

theorem Network_protocols_advertised_witness:
  "net_protocols (Network_constructor no_options)
     = [''/ipfs/bitswap/1.2.0'', ''/ipfs/bitswap/1.1.0'', ''/ipfs/bitswap/1.0.0'']
   \<and> net_protocols (Network_constructor (no_options\<lparr>b100Only := Some False\<rparr>))
     = [''/ipfs/bitswap/1.2.0'', ''/ipfs/bitswap/1.1.0'', ''/ipfs/bitswap/1.0.0'']
   \<and> net_protocols (Network_constructor (no_options\<lparr>b100Only := Some True\<rparr>))
     = [''/ipfs/bitswap/1.0.0'']
   \<and> handled_protocols
        (snd (snd (Network_start libp2p_example (Network_constructor (no_options\<lparr>b100Only := Some True\<rparr>)))))
     = [[''/ipfs/bitswap/1.0.0'']]"
  using Network_protocols_advertised [of no_options libp2p_example]
    Network_protocols_advertised [of "no_options\<lparr>b100Only := Some False\<rparr>" libp2p_example]
    Network_protocols_advertised [of "no_options\<lparr>b100Only := Some True\<rparr>" libp2p_example]
  by (simp add: no_options_def)

lemma length_iterate: "length (fst (iterate n it)) \<le> n"
  by (induction n arbitrary: it) (auto split: AsyncIterable.splits)

lemma findAndConnect_loop_iterate:
  "found < limit \<Longrightarrow>
     findAndConnect_loop limit connect it found acc
       = Some (case snd (iterate (limit - found) it) of None \<Rightarrow> Inr () | Some err \<Rightarrow> Inl err,
               acc @ map (\<lambda>p. (p, connect p)) (fst (iterate (limit - found) it)))"
proof (induction "limit - found" arbitrary: it found acc)
  case 0
  then show ?case by simp
next
  case (Suc n)
  then have n: "limit - found = Suc n" by simp
  show ?case
  proof (cases it)
    case Done
    then show ?thesis by (subst findAndConnect_loop.simps) (simp add: n)
  next
    case (Throw err)
    then show ?thesis by (subst findAndConnect_loop.simps) (simp add: n)
  next
    case (Yield p rest)
    show ?thesis
    proof (cases "found + 1 = limit")
      case True
      then have "n = 0" using n by simp
      with True Yield show ?thesis
        by (subst findAndConnect_loop.simps) (simp add: n)
    next
      case False
      with Suc.prems have lt: "found + 1 < limit" by simp
      have eq: "n = limit - (found + 1)" using n by simp
      have eq': "limit - Suc found = n" using n by simp
      have "findAndConnect_loop limit connect rest (found + 1) (acc @ [(p, connect p)])
              = Some (case snd (iterate (limit - (found + 1)) rest) of
                        None \<Rightarrow> Inr () | Some err \<Rightarrow> Inl err,
                      (acc @ [(p, connect p)])
                        @ map (\<lambda>p. (p, connect p)) (fst (iterate (limit - (found + 1)) rest)))"
        using Suc.hyps(1) [OF eq lt] .
      with False Yield show ?thesis
        by (subst findAndConnect_loop.simps) (simp add: n eq')
    qed
  qed
qed

text \<open>
  The limit has to be positive: the loop compares \<^verbatim>\<open>found\<close> with it after counting a
  provider, so with a limit of 0 every provider of a finite iterable is tried.
\<close>

lemma findAndConnect_loop_limit_0:
  "findAndConnect_loop 0 connect (iterable_of ps) found acc
     = Some (Inr (), acc @ map (\<lambda>p. (p, connect p)) ps)"
proof (induction ps arbitrary: found acc)
  case Nil
  show ?case by (subst findAndConnect_loop.simps) simp
next
  case (Cons p ps)
  from Cons.IH [of "found + 1" "acc @ [(p, connect p)]"] show ?case
    by (subst findAndConnect_loop.simps) simp
qed

lemma iterate_forever: "iterate n (forever x) = (replicate n x, None)"
proof (induction n)
  case 0
  show ?case by simp
next
  case (Suc n)
  have "iterate (Suc n) (Yield x (forever x)) = (replicate (Suc n) x, None)"
    using Suc by simp
  then show ?case by (subst forever.code)
qed

text \<open>
  Claim C4. With a positive limit, \<^verbatim>\<open>findAndConnect\<close> returns on every provider iterable,
  ended or endless; it calls \<^verbatim>\<open>connectTo\<close> for the first providers the iterable yields, at
  most the limit of them; and its outcome is fixed by the iterable alone (an error only if the
  iterable throws before the limit is reached), whatever the dials answer. The limit is 10 in
  the specification.
\<close>

theorem Network_findAndConnect_bounded:
  assumes "0 < limit"
  shows "\<exists>outcome attempts.
           Network_findAndConnect limit lp net c = Some (outcome, attempts)
           \<and> length attempts \<le> limit
           \<and> map fst attempts = fst (iterate limit (findProviders lp c))
           \<and> (\<forall>(p, answer)\<in>set attempts. answer = Network_connectTo lp net p)
           \<and> outcome = (case snd (iterate limit (findProviders lp c)) of
                          None \<Rightarrow> Inr () | Some err \<Rightarrow> Inl err)"
  using assms length_iterate [of limit "findProviders lp c"]
  by (auto simp: Network_findAndConnect_def Network_findProviders_def findAndConnect_loop_iterate
      comp_def)

lemma iterate_twelve:
  "iterate 10 (iterable_of twelve_providers)
     = ([''peerA'', ''peerB'', ''peerC'', ''peerD'', ''peerE'', ''peerF'', ''peerG'', ''peerH'',
         ''peerI'', ''peerJ''], None)"
  by (simp add: twelve_providers_def eval_nat_numeral)

theorem Network_findAndConnect_bounded_witness:
  "0 < maxProvidersPerRequest
   \<and> (\<exists>attempts.
        Network_findAndConnect maxProvidersPerRequest libp2p_example network_example cid_hello_sha256
          = Some (Inr (), attempts)
        \<and> length attempts = 10
        \<and> (''peerA'', Inl (Error ''dial failed'')) \<in> set attempts
        \<and> (''peerB'', Inr (Connection ''peerB'')) \<in> set attempts)"
proof -
  have pos: "0 < maxProvidersPerRequest" by (simp add: maxProvidersPerRequest_def)
  from Network_findAndConnect_bounded [OF pos, of libp2p_example network_example cid_hello_sha256]
  obtain outcome attempts where
    r: "Network_findAndConnect maxProvidersPerRequest libp2p_example network_example cid_hello_sha256
          = Some (outcome, attempts)"
    and m: "map fst attempts = fst (iterate maxProvidersPerRequest (findProviders libp2p_example cid_hello_sha256))"
    and a: "\<forall>(p, answer)\<in>set attempts. answer = Network_connectTo libp2p_example network_example p"
    and out: "outcome = (case snd (iterate maxProvidersPerRequest (findProviders libp2p_example cid_hello_sha256)) of
                          None \<Rightarrow> Inr () | Some err \<Rightarrow> Inl err)"
    by blast
  have it: "iterate maxProvidersPerRequest (findProviders libp2p_example cid_hello_sha256)
     = ([''peerA'', ''peerB'', ''peerC'', ''peerD'', ''peerE'', ''peerF'', ''peerG'', ''peerH'',
         ''peerI'', ''peerJ''], None)"
    by (simp add: maxProvidersPerRequest_def libp2p_example_def iterate_twelve)
  from out it have o: "outcome = Inr ()" by simp
  from m it have keys: "map fst attempts = [''peerA'', ''peerB'', ''peerC'', ''peerD'', ''peerE'', ''peerF'', ''peerG'', ''peerH'',
         ''peerI'', ''peerJ'']" by simp
  have "length (map fst attempts) = 10" unfolding keys by simp
  then have len: "length attempts = 10" by simp
  have mem: "(p, Network_connectTo libp2p_example network_example p) \<in> set attempts"
    if "p \<in> set (map fst attempts)" for p
  proof -
    from that obtain answer where "(p, answer) \<in> set attempts" by auto
    with a show ?thesis by auto
  qed
  have cA: "Network_connectTo libp2p_example network_example ''peerA'' = Inl (Error ''dial failed'')"
    by (simp add: Network_connectTo_def libp2p_example_def network_example_def)
  have cB: "Network_connectTo libp2p_example network_example ''peerB'' = Inr (Connection ''peerB'')"
    by (simp add: Network_connectTo_def libp2p_example_def network_example_def)
  have "(''peerA'', Inl (Error ''dial failed'')) \<in> set attempts"
    using mem [of "''peerA''"] cA unfolding keys by simp
  moreover have "(''peerB'', Inr (Connection ''peerB'')) \<in> set attempts"
    using mem [of "''peerB''"] cB unfolding keys by simp
  ultimately show ?thesis
    using pos r o len by simp
qed

text \<open>On an endless iterable the call returns after exactly the limit of attempts.\<close>

lemma Network_findAndConnect_endless:
  assumes "0 < limit" and "findProviders lp c = forever p"
  shows "Network_findAndConnect limit lp net c
           = Some (Inr (), replicate limit (p, Network_connectTo lp net p))"
  using assms
  by (simp add: Network_findAndConnect_def Network_findProviders_def findAndConnect_loop_iterate
      iterate_forever map_replicate)

section \<open>Properties of the message queue\<close>

lemma sent_send: "sent (snd (MsgQueue_send lp net q msg)) = [msg]"
  by (simp add: MsgQueue_send_def split: sum.splits)

lemma sendMessage_calls_send:
  "sendMessage_calls (snd (MsgQueue_send lp net q msg))
     = (case Network_connectTo lp net (peerId q) of Inl err \<Rightarrow> [] | Inr c \<Rightarrow> [(peerId q, msg)])"
  by (simp add: MsgQueue_send_def split: sum.splits)

text \<open>
  Claim C2. \<^verbatim>\<open>send\<close> never fails for its caller. When \<^verbatim>\<open>network.connectTo\<close> fails, the
  message is dropped: \<^verbatim>\<open>network.sendMessage\<close> is not called and the only trace is the log
  line. When \<^verbatim>\<open>connectTo\<close> succeeds, \<^verbatim>\<open>network.sendMessage\<close> is called once, with the
  queue's peer and the message.
\<close>

theorem MsgQueue_send_drops_on_dial_failure:
  "fst (MsgQueue_send lp net q msg) = Inr ()
   \<and> (Network_connectTo lp net (peerId q) = Inl err \<longrightarrow>
        sendMessage_calls (snd (MsgQueue_send lp net q msg)) = []
        \<and> snd (MsgQueue_send lp net q msg)
            = [Send msg, ConnectTo (peerId q), LogError (''cant connect to peer: '' @ message err)])
   \<and> (Network_connectTo lp net (peerId q) = Inr connection \<longrightarrow>
        sendMessage_calls (snd (MsgQueue_send lp net q msg)) = [(peerId q, msg)])"
  by (simp add: sendMessage_calls_send) (simp add: MsgQueue_send_def split: sum.splits)

theorem MsgQueue_send_drops_on_dial_failure_witness:
  "Network_connectTo libp2p_example network_example (peerId queue_unreachable)
     = Inl (Error ''dial failed'')
   \<and> MsgQueue_send libp2p_example network_example queue_unreachable message_want_hello
     = (Inr (), [Send message_want_hello, ConnectTo ''peerC'',
                 LogError ''cant connect to peer: dial failed''])
   \<and> Network_connectTo libp2p_example network_example (peerId queue_two_cids)
     = Inr (Connection ''peerB'')
   \<and> sendMessage_calls (snd (MsgQueue_send libp2p_example network_example queue_two_cids message_want_hello))
     = [(''peerB'', message_want_hello)]"
proof -
  have c: "Network_connectTo libp2p_example network_example (peerId queue_unreachable)
     = Inl (Error ''dial failed'')"
    by (simp add: Network_connectTo_def libp2p_example_def network_example_def
          queue_unreachable_def MsgQueue_addEntries_def MsgQueue_constructor_def)
  have b: "Network_connectTo libp2p_example network_example (peerId queue_two_cids)
     = Inr (Connection ''peerB'')"
    by (simp add: Network_connectTo_def libp2p_example_def network_example_def
          queue_two_cids_def MsgQueue_addEntries_def MsgQueue_constructor_def)
  have p: "peerId queue_unreachable = ''peerC''" "peerId queue_two_cids = ''peerB''"
    by (simp_all add: queue_unreachable_def queue_two_cids_def MsgQueue_addEntries_def
          MsgQueue_constructor_def)
  show ?thesis
    using c b p
      MsgQueue_send_drops_on_dial_failure [of libp2p_example network_example queue_unreachable
        message_want_hello "Error ''dial failed''"]
      MsgQueue_send_drops_on_dial_failure [of libp2p_example network_example queue_two_cids
        message_want_hello _ "Connection ''peerB''"]
    by (simp add: prod_eq_iff)
qed

lemma add_queue_entry_wantlist:
  "add_queue_entry msg entry
     = msg\<lparr>wantlist := Map_set (wantlist msg) (qe_cid entry) (entry_for entry)\<rparr>"
  by (simp add: add_queue_entry_def entry_for_def Message_cancel_def Message_addEntry_def)

lemma foldl_add_queue_entry_fields:
  "full (foldl add_queue_entry msg es) = full msg
   \<and> blocks (foldl add_queue_entry msg es) = blocks msg
   \<and> blockPresences (foldl add_queue_entry msg es) = blockPresences msg
   \<and> pendingBytes (foldl add_queue_entry msg es) = pendingBytes msg"
  by (induction es arbitrary: msg) (simp_all add: add_queue_entry_wantlist)

lemma foldl_add_queue_entry_keys:
  "fst ` set (wantlist (foldl add_queue_entry msg es))
     = fst ` set (wantlist msg) \<union> qe_cid ` set es"
  by (induction es arbitrary: msg) (auto simp: add_queue_entry_wantlist Map_set_def dom_update)

lemma foldl_add_queue_entry_distinct:
  "distinct (map fst (wantlist msg)) \<Longrightarrow>
     distinct (map fst (wantlist (foldl add_queue_entry msg es)))"
  by (induction es arbitrary: msg) (simp_all add: add_queue_entry_wantlist Map_set_def distinct_update)

lemma foldl_add_queue_entry_fresh:
  "distinct (map qe_cid es) \<Longrightarrow> qe_cid ` set es \<inter> fst ` set (wantlist msg) = {} \<Longrightarrow>
     wantlist (foldl add_queue_entry msg es)
       = wantlist msg @ map (\<lambda>e. (qe_cid e, entry_for e)) es"
proof (induction es arbitrary: msg)
  case Nil
  show ?case by simp
next
  case (Cons e es)
  have fresh: "qe_cid e \<notin> fst ` set (wantlist msg)"
    using Cons.prems(2) by auto
  have step: "wantlist (add_queue_entry msg e) = wantlist msg @ [(qe_cid e, entry_for e)]"
    using fresh by (simp add: add_queue_entry_wantlist Map_set_def update_fresh)
  have "qe_cid ` set es \<inter> fst ` set (wantlist (add_queue_entry msg e)) = {}"
    using Cons.prems by (auto simp: step)
  with Cons.IH [of "add_queue_entry msg e"] Cons.prems(1) step show ?case by simp
qed

lemma Message_carries_entry_for:
  "Map_get (wantlist msg) (qe_cid e) = Some (entry_for e) \<Longrightarrow> Message_carries msg e"
  by (simp add: Message_carries_def entry_for_def)

lemma built_message_carries:
  assumes "distinct (map qe_cid es)" and "e \<in> set es"
  shows "Message_carries (foldl add_queue_entry (new_Message False) es) e"
proof -
  let ?msg = "foldl add_queue_entry (new_Message False) es"
  have w: "wantlist ?msg = map (\<lambda>e. (qe_cid e, entry_for e)) es"
    using foldl_add_queue_entry_fresh [OF assms(1), of "new_Message False"]
    by (simp add: new_Message_def)
  have "distinct (map fst (map (\<lambda>e. (qe_cid e, entry_for e)) es))"
    using assms(1) by (simp add: comp_def)
  moreover have "(qe_cid e, entry_for e) \<in> set (map (\<lambda>e. (qe_cid e, entry_for e)) es)"
    using assms(2) by auto
  ultimately have "map_of (map (\<lambda>e. (qe_cid e, entry_for e)) es) (qe_cid e) = Some (entry_for e)"
    by (rule map_of_is_SomeI)
  then show ?thesis
    using w by (intro Message_carries_entry_for) (simp add: Map_get_def)
qed

lemma built_message_not_empty:
  "es \<noteq> [] \<Longrightarrow> \<not> Message_empty (foldl add_queue_entry (new_Message False) es)"
proof
  assume ne: "es \<noteq> []" and "Message_empty (foldl add_queue_entry (new_Message False) es)"
  then have "fst ` set (wantlist (foldl add_queue_entry (new_Message False) es)) = {}"
    by (simp add: Message_empty_def)
  then have "qe_cid ` set es = {}"
    by (simp add: foldl_add_queue_entry_keys)
  with ne show False by simp
qed

lemma foldl_add_queue_entry_get:
  "Map_get (wantlist (foldl add_queue_entry msg es)) c
     = (if filter (\<lambda>e. qe_cid e = c) es = [] then Map_get (wantlist msg) c
        else Some (entry_for (last (filter (\<lambda>e. qe_cid e = c) es))))"
proof (induction es rule: rev_induct)
  case Nil
  show ?case by simp
next
  case (snoc x xs)
  then show ?case
    by (cases "qe_cid x = c") (simp_all add: add_queue_entry_wantlist Map_get_set)
qed

lemma carried_when_cid_not_shared:
  assumes "entry \<in> set es"
    and "\<forall>other\<in>set es. qe_cid other = qe_cid entry \<longrightarrow> other = entry"
  shows "Message_carries (foldl add_queue_entry msg es) entry"
proof -
  let ?fs = "filter (\<lambda>e. qe_cid e = qe_cid entry) es"
  from assms(1) have ne: "?fs \<noteq> []"
    by (auto simp: filter_empty_conv)
  then have "last ?fs \<in> set ?fs" by (rule last_in_set)
  with assms(2) have "last ?fs = entry" by auto
  with ne have "Map_get (wantlist (foldl add_queue_entry msg es)) (qe_cid entry)
      = Some (entry_for entry)"
    by (simp add: foldl_add_queue_entry_get)
  then show ?thesis by (rule Message_carries_entry_for)
qed

lemma carried_when_cid_occurs_once:
  assumes "entry \<in> set es"
    and "length (filter (\<lambda>e. qe_cid e = qe_cid entry) es) = 1"
  shows "Message_carries (foldl add_queue_entry msg es) entry"
proof (rule carried_when_cid_not_shared [OF assms(1)], intro ballI impI)
  fix other assume o: "other \<in> set es" "qe_cid other = qe_cid entry"
  from assms(2) obtain x where x: "filter (\<lambda>e. qe_cid e = qe_cid entry) es = [x]"
    by (cases "filter (\<lambda>e. qe_cid e = qe_cid entry) es") auto
  have "other \<in> set (filter (\<lambda>e. qe_cid e = qe_cid entry) es)"
    "entry \<in> set (filter (\<lambda>e. qe_cid e = qe_cid entry) es)"
    using o assms(1) by auto
  then show "other = entry" unfolding x by simp
qed

text \<open>
  Claim C1, as amended. With nothing pending, \<^verbatim>\<open>sendEntries\<close> does nothing. With entries
  pending, it clears the pending list and hands \<^verbatim>\<open>send\<close> exactly one message, which is not
  full, has no blocks, and has one wantlist entry for each CID that occurs among the pending
  entries. The message carries every pending entry whose CID occurs once among the pending
  entries, whatever else is pending, and more generally every pending entry whose CID no
  different pending entry has: a cancel entry for an entry flagged \<^verbatim>\<open>cancel\<close>, a want entry
  with the entry's priority otherwise. So when no CID occurs twice, every pending entry is
  carried.
\<close>

theorem MsgQueue_sendEntries_one_message:
  "(entries q = [] \<longrightarrow> MsgQueue_sendEntries lp net q = (q, []))
   \<and> (entries q \<noteq> [] \<longrightarrow>
        (\<exists>msg. MsgQueue_sendEntries lp net q
                 = (q\<lparr>entries := []\<rparr>, snd (MsgQueue_send lp net (q\<lparr>entries := []\<rparr>) msg))
           \<and> sent (snd (MsgQueue_sendEntries lp net q)) = [msg]
           \<and> \<not> full msg \<and> blocks msg = [] \<and> blockPresences msg = []
           \<and> fst ` set (wantlist msg) = qe_cid ` set (entries q)
           \<and> distinct (map fst (wantlist msg))
           \<and> (\<forall>entry\<in>set (entries q).
                length (filter (\<lambda>e. qe_cid e = qe_cid entry) (entries q)) = 1 \<longrightarrow>
                Message_carries msg entry)
           \<and> (\<forall>entry\<in>set (entries q).
                (\<forall>other\<in>set (entries q). qe_cid other = qe_cid entry \<longrightarrow> other = entry) \<longrightarrow>
                Message_carries msg entry)
           \<and> (distinct (map qe_cid (entries q)) \<longrightarrow>
                length (wantlist msg) = length (entries q)
                \<and> (\<forall>entry\<in>set (entries q). Message_carries msg entry))))"
proof (cases "entries q = []")
  case True
  then show ?thesis by (simp add: MsgQueue_sendEntries_def)
next
  case False
  let ?msg = "foldl add_queue_entry (new_Message False) (entries q)"
  have ne: "\<not> Message_empty ?msg"
    using False by (rule built_message_not_empty)
  have run: "MsgQueue_sendEntries lp net q
      = (q\<lparr>entries := []\<rparr>, snd (MsgQueue_send lp net (q\<lparr>entries := []\<rparr>) ?msg))"
    using False ne by (simp add: MsgQueue_sendEntries_def MsgQueue_addMessage_def Let_def)
  have fields: "\<not> full ?msg" "blocks ?msg = []" "blockPresences ?msg = []"
    by (simp_all add: foldl_add_queue_entry_fields new_Message_def)
  have keys: "fst ` set (wantlist ?msg) = qe_cid ` set (entries q)"
    by (simp add: foldl_add_queue_entry_keys new_Message_def)
  have dist: "distinct (map fst (wantlist ?msg))"
    by (rule foldl_add_queue_entry_distinct) (simp add: new_Message_def)
  have once: "\<forall>entry\<in>set (entries q).
      length (filter (\<lambda>e. qe_cid e = qe_cid entry) (entries q)) = 1 \<longrightarrow>
      Message_carries ?msg entry"
    by (intro ballI impI) (rule carried_when_cid_occurs_once)
  have unshared: "\<forall>entry\<in>set (entries q).
      (\<forall>other\<in>set (entries q). qe_cid other = qe_cid entry \<longrightarrow> other = entry) \<longrightarrow>
      Message_carries ?msg entry"
    by (intro ballI impI) (rule carried_when_cid_not_shared)
  have all: "length (wantlist ?msg) = length (entries q)
      \<and> (\<forall>entry\<in>set (entries q). Message_carries ?msg entry)"
    if d: "distinct (map qe_cid (entries q))"
  proof -
    have "wantlist ?msg = map (\<lambda>e. (qe_cid e, entry_for e)) (entries q)"
      using foldl_add_queue_entry_fresh [OF d, of "new_Message False"]
      by (simp add: new_Message_def)
    then have "length (wantlist ?msg) = length (entries q)" by simp
    with built_message_carries [OF d] show ?thesis by simp
  qed
  let ?P = "\<lambda>msg. MsgQueue_sendEntries lp net q
                 = (q\<lparr>entries := []\<rparr>, snd (MsgQueue_send lp net (q\<lparr>entries := []\<rparr>) msg))
           \<and> sent (snd (MsgQueue_sendEntries lp net q)) = [msg]
           \<and> \<not> full msg \<and> blocks msg = [] \<and> blockPresences msg = []
           \<and> fst ` set (wantlist msg) = qe_cid ` set (entries q)
           \<and> distinct (map fst (wantlist msg))
           \<and> (\<forall>entry\<in>set (entries q).
                length (filter (\<lambda>e. qe_cid e = qe_cid entry) (entries q)) = 1 \<longrightarrow>
                Message_carries msg entry)
           \<and> (\<forall>entry\<in>set (entries q).
                (\<forall>other\<in>set (entries q). qe_cid other = qe_cid entry \<longrightarrow> other = entry) \<longrightarrow>
                Message_carries msg entry)
           \<and> (distinct (map qe_cid (entries q)) \<longrightarrow>
                length (wantlist msg) = length (entries q)
                \<and> (\<forall>entry\<in>set (entries q). Message_carries msg entry))"
  have "?P ?msg"
  proof (intro conjI)
    show "MsgQueue_sendEntries lp net q
        = (q\<lparr>entries := []\<rparr>, snd (MsgQueue_send lp net (q\<lparr>entries := []\<rparr>) ?msg))"
      by (rule run)
    show "sent (snd (MsgQueue_sendEntries lp net q)) = [?msg]"
      unfolding run by (simp add: sent_send)
    show "\<not> full ?msg" "blocks ?msg = []" "blockPresences ?msg = []"
      by (rule fields)+
    show "fst ` set (wantlist ?msg) = qe_cid ` set (entries q)"
      by (rule keys)
    show "distinct (map fst (wantlist ?msg))"
      by (rule dist)
    show "\<forall>entry\<in>set (entries q).
        length (filter (\<lambda>e. qe_cid e = qe_cid entry) (entries q)) = 1 \<longrightarrow>
        Message_carries ?msg entry"
      by (rule once)
    show "\<forall>entry\<in>set (entries q).
        (\<forall>other\<in>set (entries q). qe_cid other = qe_cid entry \<longrightarrow> other = entry) \<longrightarrow>
        Message_carries ?msg entry"
      by (rule unshared)
    show "distinct (map qe_cid (entries q)) \<longrightarrow>
        length (wantlist ?msg) = length (entries q)
        \<and> (\<forall>entry\<in>set (entries q). Message_carries ?msg entry)"
      by (rule impI) (rule all)
  qed
  then have ex: "\<exists>msg. ?P msg" by (rule exI)
  show ?thesis
  proof (intro conjI impI)
    assume "entries q = []"
    with False show "MsgQueue_sendEntries lp net q = (q, [])" by simp
  next
    show "\<exists>msg. ?P msg" by (rule ex)
  qed
qed

lemma sendEntries_sent:
  "entries q \<noteq> [] \<Longrightarrow>
     sent (snd (MsgQueue_sendEntries lp net q))
       = [foldl add_queue_entry (new_Message False) (entries q)]"
  using built_message_not_empty [of "entries q"]
  by (simp add: MsgQueue_sendEntries_def Let_def MsgQueue_addMessage_def sent_send)

lemma cid_hello_distinct: "cid_hello_sha256 \<noteq> cid_hello_sha512"
  by (simp add: cid_hello_sha256_def cid_hello_sha512_def)

lemma entries_queue_two_cids: "entries queue_two_cids = [want_hello, cancel_hello512]"
  by (simp add: queue_two_cids_def MsgQueue_addEntries_def MsgQueue_constructor_def)

lemma entries_queue_repeated_cid:
  "entries queue_repeated_cid = [want_hello512, want_hello, cancel_hello]"
  by (simp add: queue_repeated_cid_def MsgQueue_addEntries_def MsgQueue_constructor_def)

theorem MsgQueue_sendEntries_one_message_witness:
  "entries (MsgQueue_constructor ''peerB'' :: (string, 8 word list) MsgQueue) = []
   \<and> MsgQueue_sendEntries libp2p_example network_example (MsgQueue_constructor ''peerB'')
       = (MsgQueue_constructor ''peerB'', [])
   \<and> entries queue_two_cids \<noteq> []
   \<and> distinct (map qe_cid (entries queue_two_cids))
   \<and> (\<exists>msg. sent (snd (MsgQueue_sendEntries libp2p_example network_example queue_two_cids)) = [msg]
         \<and> \<not> full msg
         \<and> length (wantlist msg) = 2
         \<and> Message_carries msg want_hello
         \<and> Message_carries msg cancel_hello512)
   \<and> entries (fst (MsgQueue_sendEntries libp2p_example network_example queue_two_cids)) = []
   \<and> entries queue_repeated_cid = [want_hello512, want_hello, cancel_hello]
   \<and> length (filter (\<lambda>e. qe_cid e = qe_cid want_hello512) (entries queue_repeated_cid)) = 1
   \<and> (\<exists>msg. sent (snd (MsgQueue_sendEntries libp2p_example network_example queue_repeated_cid)) = [msg]
         \<and> Message_carries msg want_hello512
         \<and> Message_carries msg cancel_hello)"
proof -
  let ?q0 = "MsgQueue_constructor ''peerB'' :: (string, 8 word list) MsgQueue"
  have e0: "entries ?q0 = []"
    by (simp add: MsgQueue_constructor_def)
  have ne: "entries queue_two_cids \<noteq> []"
    by (simp add: entries_queue_two_cids)
  have d: "distinct (map qe_cid (entries queue_two_cids))"
    by (simp add: entries_queue_two_cids want_hello_def cancel_hello512_def cid_hello_distinct)
  from MsgQueue_sendEntries_one_message [of queue_two_cids libp2p_example network_example] ne d
  obtain msg where
    run: "MsgQueue_sendEntries libp2p_example network_example queue_two_cids
           = (queue_two_cids\<lparr>entries := []\<rparr>,
              snd (MsgQueue_send libp2p_example network_example (queue_two_cids\<lparr>entries := []\<rparr>) msg))"
    and m: "sent (snd (MsgQueue_sendEntries libp2p_example network_example queue_two_cids)) = [msg]"
      "\<not> full msg" "length (wantlist msg) = length (entries queue_two_cids)"
      "\<forall>entry\<in>set (entries queue_two_cids). Message_carries msg entry"
    by blast
  from m have two: "\<exists>msg. sent (snd (MsgQueue_sendEntries libp2p_example network_example queue_two_cids)) = [msg]
         \<and> \<not> full msg
         \<and> length (wantlist msg) = 2
         \<and> Message_carries msg want_hello
         \<and> Message_carries msg cancel_hello512"
    by (auto simp: entries_queue_two_cids)
  have cleared: "entries (fst (MsgQueue_sendEntries libp2p_example network_example queue_two_cids)) = []"
    using run by simp
  have idle: "MsgQueue_sendEntries libp2p_example network_example ?q0 = (?q0, [])"
    using MsgQueue_sendEntries_one_message [of ?q0 libp2p_example network_example] e0 by simp
  have er: "entries queue_repeated_cid = [want_hello512, want_hello, cancel_hello]"
    by (rule entries_queue_repeated_cid)
  have once: "length (filter (\<lambda>e. qe_cid e = qe_cid want_hello512) (entries queue_repeated_cid)) = 1"
    using cid_hello_distinct
    by (simp add: er want_hello512_def want_hello_def cancel_hello_def)
  have ner: "entries queue_repeated_cid \<noteq> []"
    by (simp add: er)
  from MsgQueue_sendEntries_one_message
         [of queue_repeated_cid libp2p_example network_example, THEN conjunct2, THEN mp, OF ner]
  obtain msg' where
    m': "sent (snd (MsgQueue_sendEntries libp2p_example network_example queue_repeated_cid)) = [msg']"
    and c': "\<forall>entry\<in>set (entries queue_repeated_cid).
                length (filter (\<lambda>e. qe_cid e = qe_cid entry) (entries queue_repeated_cid)) = 1 \<longrightarrow>
                Message_carries msg' entry"
    by blast
  have "want_hello512 \<in> set (entries queue_repeated_cid)"
    by (simp add: er)
  with c' once have c1: "Message_carries msg' want_hello512"
    by blast
  have "sent (snd (MsgQueue_sendEntries libp2p_example network_example queue_repeated_cid))
      = [foldl add_queue_entry (new_Message False) (entries queue_repeated_cid)]"
    by (rule sendEntries_sent) (simp add: er)
  with m' have msg': "msg' = foldl add_queue_entry (new_Message False) [want_hello512, want_hello, cancel_hello]"
    by (simp add: er)
  have "Map_get (wantlist (foldl add_queue_entry (new_Message False)
                             [want_hello512, want_hello, cancel_hello])) (qe_cid cancel_hello)
      = Some (entry_for cancel_hello)"
    unfolding foldl_add_queue_entry_get using cid_hello_distinct
    by (simp add: want_hello512_def want_hello_def cancel_hello_def)
  then have c2: "Message_carries msg' cancel_hello"
    unfolding msg' by (rule Message_carries_entry_for)
  from m' c1 c2 have rep: "\<exists>msg. sent (snd (MsgQueue_sendEntries libp2p_example network_example queue_repeated_cid)) = [msg]
         \<and> Message_carries msg want_hello512
         \<and> Message_carries msg cancel_hello"
    by blast
  show ?thesis
    using e0 idle ne d two cleared er once rep by simp
qed

text \<open>
  Claim C1 as stated fails when the pending list holds two entries for one CID. After
  \<^verbatim>\<open>addEntries\<close> with a want for a CID and \<^verbatim>\<open>addEntries\<close> with a cancel for the same CID,
  \<^verbatim>\<open>sendEntries\<close> hands \<^verbatim>\<open>send\<close> one message whose wantlist has the cancel entry alone: the
  want with its priority is not in the message.
\<close>

theorem MsgQueue_sendEntries_same_cid_twice:
  "entries queue_want_cancel = [want_hello, cancel_hello]
   \<and> sent (snd (MsgQueue_sendEntries libp2p_example network_example queue_want_cancel))
       = [\<lparr>full = False,
            wantlist = [(cid_hello_sha256,
                         \<lparr>me_cid = cid_hello_sha256, me_priority = 0, me_wantType = Block,
                          me_cancel = True\<rparr>)],
            blocks = [], blockPresences = [], pendingBytes = 0\<rparr>]
   \<and> \<not> Message_carries
         \<lparr>full = False,
          wantlist = [(cid_hello_sha256,
                       \<lparr>me_cid = cid_hello_sha256, me_priority = 0, me_wantType = Block,
                        me_cancel = True\<rparr>)],
          blocks = [], blockPresences = [], pendingBytes = 0\<rparr>
         want_hello"
proof -
  have e: "entries queue_want_cancel = [want_hello, cancel_hello]"
    by (simp add: queue_want_cancel_def MsgQueue_addEntries_def MsgQueue_constructor_def)
  have msg: "foldl add_queue_entry (new_Message False) [want_hello, cancel_hello]
      = \<lparr>full = False,
         wantlist = [(cid_hello_sha256,
                      \<lparr>me_cid = cid_hello_sha256, me_priority = 0, me_wantType = Block,
                       me_cancel = True\<rparr>)],
         blocks = [], blockPresences = [], pendingBytes = 0\<rparr>"
    by (simp add: add_queue_entry_def want_hello_def cancel_hello_def Message_cancel_def
          Message_addEntry_def new_Message_def Map_set_def)
  have "sent (snd (MsgQueue_sendEntries libp2p_example network_example queue_want_cancel))
      = [foldl add_queue_entry (new_Message False) (entries queue_want_cancel)]"
    by (rule sendEntries_sent) (simp add: e)
  then have "sent (snd (MsgQueue_sendEntries libp2p_example network_example queue_want_cancel))
      = [\<lparr>full = False,
           wantlist = [(cid_hello_sha256,
                        \<lparr>me_cid = cid_hello_sha256, me_priority = 0, me_wantType = Block,
                         me_cancel = True\<rparr>)],
           blocks = [], blockPresences = [], pendingBytes = 0\<rparr>]"
    unfolding e msg .
  moreover have "\<not> Message_carries
         \<lparr>full = False,
          wantlist = [(cid_hello_sha256,
                       \<lparr>me_cid = cid_hello_sha256, me_priority = 0, me_wantType = Block,
                        me_cancel = True\<rparr>)],
          blocks = [], blockPresences = [], pendingBytes = 0\<rparr>
         want_hello"
    by (simp add: Message_carries_def Map_get_def want_hello_def)
  ultimately show ?thesis
    using e by simp
qed

text \<open>
  Claim C10, as amended. \<^verbatim>\<open>addMessage\<close> with an empty message, one with no wantlist entry,
  no block and no block presence, does nothing at all; with any other message it hands that
  message to \<^verbatim>\<open>send\<close>, once. No message that \<^verbatim>\<open>addMessage\<close> or \<^verbatim>\<open>sendEntries\<close> hands to
  \<^verbatim>\<open>send\<close> or to \<^verbatim>\<open>network.sendMessage\<close> is empty.
\<close>

theorem MsgQueue_never_sends_empty_message:
  "(Message_empty msg \<longrightarrow> MsgQueue_addMessage lp net q msg = [])
   \<and> (wantlist msg = [] \<and> blocks msg = [] \<and> blockPresences msg = [] \<longrightarrow>
        MsgQueue_addMessage lp net q msg = [])
   \<and> (\<not> Message_empty msg \<longrightarrow> sent (MsgQueue_addMessage lp net q msg) = [msg])
   \<and> (\<forall>m\<in>set (sent (MsgQueue_addMessage lp net q msg)). \<not> Message_empty m)
   \<and> (\<forall>(p, m)\<in>set (sendMessage_calls (MsgQueue_addMessage lp net q msg)). \<not> Message_empty m)
   \<and> (\<forall>m\<in>set (sent (snd (MsgQueue_sendEntries lp net q))). \<not> Message_empty m)
   \<and> (\<forall>(p, m)\<in>set (sendMessage_calls (snd (MsgQueue_sendEntries lp net q))). \<not> Message_empty m)"
proof -
  have add: "\<And>q' m'. (\<forall>m\<in>set (sent (MsgQueue_addMessage lp net q' m')). \<not> Message_empty m)
      \<and> (\<forall>(p, m)\<in>set (sendMessage_calls (MsgQueue_addMessage lp net q' m')). \<not> Message_empty m)"
    by (simp add: MsgQueue_addMessage_def sent_send sendMessage_calls_send split: sum.splits)
  have se: "(\<forall>m\<in>set (sent (snd (MsgQueue_sendEntries lp net q))). \<not> Message_empty m)
      \<and> (\<forall>(p, m)\<in>set (sendMessage_calls (snd (MsgQueue_sendEntries lp net q))). \<not> Message_empty m)"
  proof (cases "entries q = []")
    case True
    then show ?thesis by (simp add: MsgQueue_sendEntries_def)
  next
    case False
    then have "snd (MsgQueue_sendEntries lp net q)
        = MsgQueue_addMessage lp net (q\<lparr>entries := []\<rparr>)
            (foldl add_queue_entry (new_Message False) (entries q))"
      by (simp add: MsgQueue_sendEntries_def Let_def)
    then show ?thesis
      using add [of "q\<lparr>entries := []\<rparr>" "foldl add_queue_entry (new_Message False) (entries q)"]
      by simp
  qed
  have noop: "Message_empty msg \<longrightarrow> MsgQueue_addMessage lp net q msg = []"
    by (simp add: MsgQueue_addMessage_def)
  then have noop': "wantlist msg = [] \<and> blocks msg = [] \<and> blockPresences msg = [] \<longrightarrow>
        MsgQueue_addMessage lp net q msg = []"
    by (simp add: Message_empty_def)
  have once: "\<not> Message_empty msg \<longrightarrow> sent (MsgQueue_addMessage lp net q msg) = [msg]"
    by (simp add: MsgQueue_addMessage_def sent_send)
  from noop noop' once se add [of q msg] show ?thesis
    by blast
qed

theorem MsgQueue_never_sends_empty_message_witness:
  "Message_empty (new_Message True :: 8 word list Message)
   \<and> MsgQueue_addMessage libp2p_example network_example queue_two_cids (new_Message True) = []
   \<and> \<not> Message_empty message_want_hello
   \<and> sent (MsgQueue_addMessage libp2p_example network_example queue_two_cids message_want_hello)
       = [message_want_hello]
   \<and> sendMessage_calls (MsgQueue_addMessage libp2p_example network_example queue_two_cids message_want_hello)
       = [(''peerB'', message_want_hello)]"
proof -
  have e: "Message_empty (new_Message True :: 8 word list Message)"
    by (simp add: Message_empty_def new_Message_def)
  have ne: "\<not> Message_empty message_want_hello"
    by (simp add: Message_empty_def message_want_hello_def Message_addEntry_def new_Message_def
          Map_set_def)
  have c: "Network_connectTo libp2p_example network_example (peerId queue_two_cids)
      = Inr (Connection ''peerB'')"
    by (simp add: Network_connectTo_def libp2p_example_def network_example_def
          queue_two_cids_def MsgQueue_addEntries_def MsgQueue_constructor_def)
  have p: "peerId queue_two_cids = ''peerB''"
    by (simp add: queue_two_cids_def MsgQueue_addEntries_def MsgQueue_constructor_def)
  have noop: "MsgQueue_addMessage libp2p_example network_example queue_two_cids (new_Message True) = []"
    by (rule MsgQueue_never_sends_empty_message
          [of "new_Message True" libp2p_example network_example queue_two_cids,
           THEN conjunct1, THEN mp, OF e])
  have s: "sent (MsgQueue_addMessage libp2p_example network_example queue_two_cids message_want_hello)
       = [message_want_hello]"
    by (rule MsgQueue_never_sends_empty_message
          [of message_want_hello libp2p_example network_example queue_two_cids,
           THEN conjunct2, THEN conjunct2, THEN conjunct1, THEN mp, OF ne])
  have sm: "sendMessage_calls (MsgQueue_addMessage libp2p_example network_example queue_two_cids message_want_hello)
       = [(''peerB'', message_want_hello)]"
    using ne c p by (simp add: MsgQueue_addMessage_def sendMessage_calls_send)
  from e noop ne s sm show ?thesis
    by (intro conjI)
qed

text \<open>
  Claim C10 as stated fails: for the claim a message with no wantlist entries and no blocks
  is empty, but a message that has neither and tells of a block presence is not empty for
  \<^verbatim>\<open>addMessage\<close>, which hands it to \<^verbatim>\<open>send\<close> and on to \<^verbatim>\<open>network.sendMessage\<close>.
\<close>

theorem MsgQueue_addMessage_presence_only:
  "wantlist message_presence_only = []
   \<and> blocks message_presence_only = []
   \<and> sent (MsgQueue_addMessage libp2p_example network_example queue_two_cids message_presence_only)
       = [message_presence_only]
   \<and> sendMessage_calls
        (MsgQueue_addMessage libp2p_example network_example queue_two_cids message_presence_only)
       = [(''peerB'', message_presence_only)]"
proof -
  have ne: "\<not> Message_empty message_presence_only"
    by (simp add: Message_empty_def message_presence_only_def new_Message_def)
  have c: "Network_connectTo libp2p_example network_example (peerId queue_two_cids)
      = Inr (Connection ''peerB'')"
    by (simp add: Network_connectTo_def libp2p_example_def network_example_def
          queue_two_cids_def MsgQueue_addEntries_def MsgQueue_constructor_def)
  have p: "peerId queue_two_cids = ''peerB''"
    by (simp add: queue_two_cids_def MsgQueue_addEntries_def MsgQueue_constructor_def)
  have f: "wantlist message_presence_only = []" "blocks message_presence_only = []"
    by (simp_all add: message_presence_only_def new_Message_def)
  show ?thesis
    using ne c p f by (simp add: MsgQueue_addMessage_def sent_send sendMessage_calls_send)
qed

end
